theory Spec2Isabelle
  imports Complex_Main
begin

section \<open>LumiSpy: \<open>plot_span_map\<close> of \<open>lumispy/utils/analysis.py\<close>\<close>

text \<open>
  \<open>plot_span_map(sig, nspans=1)\<close> validates its arguments, sums a hyperspectral signal over
  its navigation axes, plots the sum, and for each of \<open>nspans\<close> spans creates a span ROI on
  that sum, a signal sliced by the ROI, an image of the slice summed along the spectral
  axis, and two reactive bindings that keep the slice and the image up to date.

  The embedding is shallow. The Python objects live in a store: every object has an
  address (its index in the store of its class), creating an object appends to the store,
  and an in-place update replaces the entry at an address. The function takes the store
  and returns the store it leaves behind together with either the raised exception or the
  returned tuple, so that every effect of the call, also of a call that raises, is visible.

  Numbers: \<open>nspans\<close> is a Python \<open>int\<close> (HOL \<open>int\<close>); axis coordinates and finite samples
  are floating-point numbers, idealised as \<open>real\<close> (rounding, overflow and infinities are
  not modelled); a sample may also be NaN.
\<close>

subsection \<open>Data\<close>

datatype sample = NaN | Val real

text \<open>
  Modelled from the spec: the axis of a HyperSpy signal (HyperSpy is an external package,
  not part of the sources), with its coordinate array and whether it is a navigation axis
  (specification, sections 3 and 6).
\<close>

record data_axis =
  axis :: "real list"
  navigate :: bool

text \<open>
  Modelled from the spec: a HyperSpy signal of the kind \<open>plot_span_map\<close> accepts
  (specification, section 3). \<open>data\<close> is indexed \<open>data[y][x][k]\<close>, the navigation axes first
  and the signal axis last, and \<open>axes\<close> lists the axes in the order of the array's
  dimensions. \<open>any_axis_changed\<close> holds the functions connected to
  \<open>axes_manager.events.any_axis_changed\<close>: each entry is the address of an image that is
  recomputed in place as \<open>self.nansum(axis=-1, out=image)\<close> when the event fires.
  The dimensionality that the function checks is read from \<open>axes\<close> alone; \<open>data\<close> is read
  only after that check has passed.
\<close>

record signal =
  data :: "sample list list list"
  axes :: "data_axis list"
  any_axis_changed :: "nat list"

text \<open>
  Modelled from the spec: a one-dimensional signal without navigation axes (the navigator
  \<open>all_sum\<close>; specification, section 3).
\<close>

record spectrum =
  sdata :: "sample list"
  saxis :: "real list"

text \<open>
  Modelled from the spec: a signal over the two spatial axes with one value per position
  (a span sum; specification, section 3).
\<close>

record image =
  idata :: "sample list list"
  iaxes :: "data_axis list"

text \<open>
  Modelled from the spec: \<open>hs.roi.SpanROI(left, right)\<close>, a mutable interval with a change
  notification (specification, section 3). \<open>changed\<close> holds the functions connected to
  \<open>events.changed\<close>: an entry \<open>(src, out)\<close> recomputes the signal at address \<open>out\<close> in
  place as \<open>self(signal=src, axes=src.axes_manager.signal_axes, out=out)\<close>.
\<close>

record span_roi =
  left :: real
  right :: real
  changed :: "(nat \<times> nat) list"

text \<open>A plot window: of a spectrum, or of an image with a colour map.\<close>

datatype plot = SpectrumPlot nat | ImagePlot nat string

text \<open>
  The store: the objects of each class by address, the open plots, and the widgets
  \<open>(span, target, colour)\<close> that overlay a span on a plotted signal.
\<close>

record world =
  signals :: "signal list"
  spectra :: "spectrum list"
  images :: "image list"
  rois :: "span_roi list"
  plots :: "plot list"
  widgets :: "(nat \<times> nat \<times> string) list"

datatype error = ValueError string | IndexError

text \<open>The returned tuple \<open>(all_sum, spans, span_sigs, span_sums)\<close>, as addresses.\<close>

record span_map =
  ret_all_sum :: nat
  ret_spans :: "nat list"
  ret_span_sigs :: "nat list"
  ret_span_sums :: "nat list"

subsection \<open>Python built-ins used by the function\<close>

text \<open>\<open>str(n)\<close> for a non-negative integer, as the f-string formats the two dimensions.\<close>

definition digit_char :: "nat \<Rightarrow> char" where
  "digit_char d = ''0123456789'' ! d"

fun str_nat :: "nat \<Rightarrow> string" where
  "str_nat n = (if n < 10 then [digit_char n] else str_nat (n div 10) @ [digit_char (n mod 10)])"

declare str_nat.simps [simp del]

text \<open>\<open>str.capitalize()\<close> on ASCII text: first character upper case, the rest lower case.\<close>

definition upper_char :: "char \<Rightarrow> char" where
  "upper_char c = (let n = (of_char c :: nat) in if 97 \<le> n \<and> n \<le> 122 then char_of (n - 32) else c)"

definition lower_char :: "char \<Rightarrow> char" where
  "lower_char c = (let n = (of_char c :: nat) in if 65 \<le> n \<and> n \<le> 90 then char_of (n + 32) else c)"

fun capitalize :: "string \<Rightarrow> string" where
  "capitalize [] = []"
| "capitalize (c # cs) = upper_char c # map lower_char cs"

subsection \<open>The toolkit's primitives\<close>

text \<open>
  HyperSpy (\<open>hyperspy.api\<close>) is an external package and not part of the sources. Each of
  its primitives that \<open>plot_span_map\<close> calls is modelled from the specification.
\<close>

text \<open>
  Modelled from the spec: \<open>axes_manager.signal_axes\<close> of HyperSpy, the axes that are not
  navigation axes (specification, section 6: axis-manager introspection).
\<close>

definition signal_axes :: "signal \<Rightarrow> data_axis list" where
  "signal_axes s = rev (filter (\<lambda>a. \<not> navigate a) (axes s))"

text \<open>
  Modelled from the spec: \<open>axes_manager.navigation_axes\<close> of HyperSpy (specification,
  section 6).
\<close>

definition navigation_axes :: "signal \<Rightarrow> data_axis list" where
  "navigation_axes s = rev (filter navigate (axes s))"

text \<open>
  Modelled from the spec: \<open>axes_manager.signal_dimension\<close> of HyperSpy, the signal
  dimension count (specification, section 6).
\<close>

definition signal_dimension :: "signal \<Rightarrow> nat" where
  "signal_dimension s = length (signal_axes s)"

text \<open>
  Modelled from the spec: \<open>axes_manager.navigation_dimension\<close> of HyperSpy, the navigation
  dimension count (specification, section 6).
\<close>

definition navigation_dimension :: "signal \<Rightarrow> nat" where
  "navigation_dimension s = length (navigation_axes s)"

text \<open>
  Modelled from the spec: what a sample adds to a NaN-safe sum of HyperSpy; a missing
  sample contributes 0 (specification, section 4.1, step 1).
\<close>

definition nan_to_zero :: "sample \<Rightarrow> real" where
  "nan_to_zero v = (case v of NaN \<Rightarrow> 0 | Val r \<Rightarrow> r)"

text \<open>
  Modelled from the spec: the NaN-safe sum of a one-dimensional array (HyperSpy's
  \<open>nansum\<close> along one axis), accumulated from the left.
\<close>

definition nansum1 :: "sample list \<Rightarrow> sample" where
  "nansum1 xs = Val (foldl (\<lambda>acc v. acc + nan_to_zero v) 0 xs)"

text \<open>
  Modelled from the spec: one step of HyperSpy's NaN-safe sum over positions, the
  elementwise addition of a spectrum to an accumulator of the same length.
\<close>

definition add_spectrum :: "real list \<Rightarrow> sample list \<Rightarrow> real list" where
  "add_spectrum acc xs = map (\<lambda>(a, v). a + nan_to_zero v) (zip acc xs)"

text \<open>
  Modelled from the spec: \<open>sig.nansum()\<close> of HyperSpy. Without an axis argument the sum
  runs over all spatial positions; the result keeps the signal axis (specification,
  section 4.1, step 1). The accumulator has one entry per spectral channel and every
  spectrum of the array is added to it in turn.
\<close>

definition nansum :: "signal \<Rightarrow> spectrum" where
  "nansum s =
     (let ax = (case signal_axes s of [] \<Rightarrow> [] | a # _ \<Rightarrow> axis a)
      in \<lparr>sdata = map Val (foldl add_spectrum (replicate (length ax) 0) (concat (data s))),
          saxis = ax\<rparr>)"

text \<open>
  Modelled from the spec: the array computed by \<open>s.nansum(-1)\<close> of HyperSpy, the NaN-safe
  sum along the last (spectral) axis at every position (specification, section 4.1,
  step 3c).
\<close>

definition nansum_last :: "sample list list list \<Rightarrow> sample list list" where
  "nansum_last d = map (map nansum1) d"

text \<open>
  Modelled from the spec: \<open>s.nansum(-1)\<close> of HyperSpy as a new signal over the navigation
  axes of \<open>s\<close>.
\<close>

definition nansum_axis :: "signal \<Rightarrow> image" where
  "nansum_axis s = \<lparr>idata = nansum_last (data s), iaxes = filter navigate (axes s)\<rparr>"

text \<open>
  Modelled from the spec: \<open>.as_signal2D([0, 1])\<close> of HyperSpy, the same values as a
  two-dimensional image indexed by the two spatial axes, which become signal axes
  (specification, sections 4.1, step 3c, and 6).
\<close>

definition as_signal2D :: "image \<Rightarrow> image" where
  "as_signal2D im = im\<lparr>iaxes := map (\<lambda>a. a\<lparr>navigate := False\<rparr>) (iaxes im)\<rparr>"

text \<open>
  Modelled from the spec: membership in a HyperSpy span, the interval \<open>[left, right)\<close> over
  the spectral axis (specification, section 3).
\<close>

definition in_span :: "span_roi \<Rightarrow> real \<Rightarrow> bool" where
  "in_span r v = (left r \<le> v \<and> v < right r)"

text \<open>
  Modelled from the spec: the spectral sub-range that a HyperSpy span holds on a
  coordinate array, as the indices of the channels whose coordinate lies in the span.
\<close>

definition span_channels :: "span_roi \<Rightarrow> real list \<Rightarrow> nat list" where
  "span_channels r ax = filter (\<lambda>k. in_span r (ax ! k)) [0..<length ax]"

text \<open>
  Modelled from the spec: the restriction of an array along the spectral axis to the
  channels \<open>ks\<close> (HyperSpy's slicing of a signal by a span).
\<close>

definition take_channels :: "nat list \<Rightarrow> 'a list \<Rightarrow> 'a list" where
  "take_channels ks xs = map (\<lambda>k. xs ! k) (filter (\<lambda>k. k < length xs) ks)"

text \<open>
  Modelled from the spec: \<open>span(signal=s, axes=s.axes_manager.signal_axes, out=out)\<close> of
  HyperSpy, the data and the signal axis of \<open>s\<close> restricted to the span's channels
  (specification, section 3, span-slice). Written into the existing signal \<open>out\<close>, it
  replaces the data and the axes of \<open>out\<close> and leaves the rest of \<open>out\<close> (its connections)
  as it is.
\<close>

definition roi_slice :: "span_roi \<Rightarrow> signal \<Rightarrow> signal \<Rightarrow> signal" where
  "roi_slice r s out =
     (let ks = (case signal_axes s of [] \<Rightarrow> [] | a # _ \<Rightarrow> span_channels r (axis a))
      in out\<lparr>data := map (map (take_channels ks)) (data s),
              axes := map (\<lambda>a. if navigate a then a else a\<lparr>axis := take_channels ks (axis a)\<rparr>) (axes s)\<rparr>)"

text \<open>Modelled from the spec: a fresh HyperSpy signal, nothing connected to its events.\<close>

definition empty_signal :: signal where
  "empty_signal = \<lparr>data = [], axes = [], any_axis_changed = []\<rparr>"

text \<open>
  Modelled from the spec: \<open>span(signal=s, axes=s.axes_manager.signal_axes)\<close> of HyperSpy
  without \<open>out\<close>, the slice as a new signal.
\<close>

definition roi_call :: "span_roi \<Rightarrow> signal \<Rightarrow> signal" where
  "roi_call r s = roi_slice r s empty_signal"

text \<open>
  Object creation: the new object's address is the next free index of the store of its
  class.
\<close>

definition new_signal :: "world \<Rightarrow> signal \<Rightarrow> nat \<times> world" where
  "new_signal w s = (length (signals w), w\<lparr>signals := signals w @ [s]\<rparr>)"

definition new_spectrum :: "world \<Rightarrow> spectrum \<Rightarrow> nat \<times> world" where
  "new_spectrum w s = (length (spectra w), w\<lparr>spectra := spectra w @ [s]\<rparr>)"

definition new_image :: "world \<Rightarrow> image \<Rightarrow> nat \<times> world" where
  "new_image w s = (length (images w), w\<lparr>images := images w @ [s]\<rparr>)"

text \<open>
  Modelled from the spec: the constructor \<open>hs.roi.SpanROI(left, right)\<close> of HyperSpy
  (specification, section 6); nothing is connected to the new span's event.
\<close>

definition SpanROI :: "world \<Rightarrow> real \<Rightarrow> real \<Rightarrow> nat \<times> world" where
  "SpanROI w l r = (length (rois w), w\<lparr>rois := rois w @ [\<lparr>left = l, right = r, changed = []\<rparr>]\<rparr>)"

text \<open>
  Modelled from the spec: \<open>all_sum.plot()\<close> of HyperSpy opens a window on a signal
  (specification, section 4.1, side effects).
\<close>

definition plot_spectrum :: "world \<Rightarrow> nat \<Rightarrow> world" where
  "plot_spectrum w a = w\<lparr>plots := plots w @ [SpectrumPlot a]\<rparr>"

text \<open>
  Modelled from the spec: \<open>span_sum.plot(cmap=...)\<close> of HyperSpy opens a window on an
  image, with a colour map.
\<close>

definition plot_image :: "world \<Rightarrow> nat \<Rightarrow> string \<Rightarrow> world" where
  "plot_image w a cmap = w\<lparr>plots := plots w @ [ImagePlot a cmap]\<rparr>"

text \<open>
  Modelled from the spec: \<open>span.add_widget(target, color=c)\<close> of HyperSpy overlays the span
  on a plotted signal (specification, section 6).
\<close>

definition add_widget :: "world \<Rightarrow> nat \<Rightarrow> nat \<Rightarrow> string \<Rightarrow> world" where
  "add_widget w sp target color = w\<lparr>widgets := widgets w @ [(sp, target, color)]\<rparr>"

text \<open>
  Modelled from the spec: \<open>hs.interactive(span, signal=sig, event=span.events.changed,
  axes=...)\<close> of HyperSpy computes the slice as a new signal and connects its
  recomputation to the span's \<open>changed\<close> event (specification, sections 4.1, step 3b,
  and 6: without \<open>out\<close> the binding produces a new linked signal).
\<close>

definition interactive_span :: "world \<Rightarrow> nat \<Rightarrow> nat \<Rightarrow> nat \<times> world" where
  "interactive_span w sp sig =
     (let (out, w1) = new_signal w (roi_call (rois w ! sp) (signals w ! sig))
      in (out, w1\<lparr>rois := (rois w1)[sp := (rois w1 ! sp)\<lparr>changed := changed (rois w1 ! sp) @ [(sig, out)]\<rparr>]\<rparr>))"

text \<open>
  Modelled from the spec: \<open>hs.interactive(span_sig.nansum, axis=-1,
  event=span_sig.axes_manager.events.any_axis_changed, out=span_sum)\<close> of HyperSpy connects
  the recomputation of \<open>span_sum\<close> to the event of \<open>span_sig\<close> (specification, sections 4.1,
  step 3d, and 6: with \<open>out\<close> the binding writes in place).
\<close>

definition interactive_nansum :: "world \<Rightarrow> nat \<Rightarrow> nat \<Rightarrow> world" where
  "interactive_nansum w src out =
     w\<lparr>signals := (signals w)[src := (signals w ! src)\<lparr>any_axis_changed := any_axis_changed (signals w ! src) @ [out]\<rparr>]\<rparr>"

subsection \<open>Event delivery\<close>

text \<open>
  The event dispatch belongs to HyperSpy. Following section 9 of the specification, a
  change of a span's range synchronously notifies the span's subscribers in registration
  order; each recomputes its slice in place, which fires the slice's \<open>any_axis_changed\<close>
  event, whose subscribers recompute their sums in place.
\<close>

text \<open>
  Modelled from the spec: the update that HyperSpy runs for a binding of \<open>src.nansum\<close> with
  \<open>axis=-1\<close> and \<open>out\<close>; it writes the sums into the existing image.
\<close>

definition recompute_sum :: "nat \<Rightarrow> world \<Rightarrow> nat \<Rightarrow> world" where
  "recompute_sum src w out =
     w\<lparr>images := (images w)[out := (images w ! out)\<lparr>idata := nansum_last (data (signals w ! src))\<rparr>]\<rparr>"

text \<open>
  Modelled from the spec: HyperSpy firing \<open>any_axis_changed\<close> of the signal at \<open>s\<close>, which
  notifies the subscribers in registration order.
\<close>

definition fire_any_axis_changed :: "world \<Rightarrow> nat \<Rightarrow> world" where
  "fire_any_axis_changed w s = foldl (recompute_sum s) w (any_axis_changed (signals w ! s))"

text \<open>
  Modelled from the spec: the update that HyperSpy runs for a binding of a span to a
  signal; it writes the slice into the existing signal, whose axes change.
\<close>

definition recompute_slice :: "nat \<Rightarrow> world \<Rightarrow> nat \<times> nat \<Rightarrow> world" where
  "recompute_slice sp w so =
     (let src = fst so; out = snd so;
          w1 = w\<lparr>signals := (signals w)[out := roi_slice (rois w ! sp) (signals w ! src) (signals w ! out)]\<rparr>
      in fire_any_axis_changed w1 out)"

text \<open>
  Modelled from the spec: HyperSpy firing \<open>changed\<close> of the span at \<open>sp\<close>, which notifies
  the subscribers in registration order.
\<close>

definition fire_changed :: "world \<Rightarrow> nat \<Rightarrow> world" where
  "fire_changed w sp = foldl (recompute_slice sp) w (changed (rois w ! sp))"

text \<open>
  Modelled from the spec: setting the range of the HyperSpy span at an address, by
  dragging the widget or by assignment (specification, sections 3 and 8).
\<close>

definition set_range :: "world \<Rightarrow> nat \<Rightarrow> real \<Rightarrow> real \<Rightarrow> world" where
  "set_range w sp l r =
     fire_changed (w\<lparr>rois := (rois w)[sp := (rois w ! sp)\<lparr>left := l, right := r\<rparr>]\<rparr>) sp"

subsection \<open>\<open>plot_span_map\<close>\<close>

definition colors :: "string list" where
  "colors = [''red'', ''green'', ''blue'']"

text \<open>
  The body of \<open>for i in range(nspans)\<close>, lines 73 to 97, over the remaining indices. The
  three lists are the accumulators \<open>spans\<close>, \<open>span_sigs\<close> and \<open>span_sums\<close>; \<open>sp\<close> is the
  source's \<open>span\<close>. \<open>colors[i]\<close> raises \<open>IndexError\<close> beyond the palette.
\<close>

fun span_loop :: "nat \<Rightarrow> real list \<Rightarrow> real \<Rightarrow> nat \<Rightarrow> nat list \<Rightarrow>
    nat list \<times> nat list \<times> nat list \<Rightarrow> world \<Rightarrow> (error + nat list \<times> nat list \<times> nat list) \<times> world" where
  "span_loop sig ax_sig span_width all_sum [] acc w = (Inr acc, w)"
| "span_loop sig ax_sig span_width all_sum (i # is) (spans, span_sigs, span_sums) w =
     (let (sp, w1) = SpanROI w (real i * span_width + hd ax_sig) (real (i + 1) * span_width + hd ax_sig)
      in if i < length colors then
           let color = colors ! i;
               w2 = add_widget w1 sp all_sum (colors ! i);
               (span_sig, w3) = interactive_span w2 sp sig;
               (span_sum, w4) = new_image w3 (as_signal2D (nansum_axis (signals w3 ! span_sig)));
               w5 = plot_image w4 span_sum (capitalize color @ ''s'');
               w6 = interactive_nansum w5 span_sig span_sum
           in span_loop sig ax_sig span_width all_sum is
                (spans @ [sp], span_sigs @ [span_sig], span_sums @ [span_sum]) w6
         else (Inl IndexError, w1))"

text \<open>
  \<open>plot_span_map(sig, nspans)\<close>, with \<open>sig\<close> the address of the signal. \<open>ax_sig[-1]\<close> and
  \<open>ax_sig[0]\<close> raise \<open>IndexError\<close> on an empty coordinate array. The division
  \<open>ax_sig_range / (2 * nspans)\<close> is a NumPy float division: it does not raise at
  \<open>nspans = 0\<close> (it warns and yields a non-finite value, where HOL's division yields 0);
  the quotient is read only inside the loop body, which does not run then.
\<close>

definition plot_span_map :: "world \<Rightarrow> nat \<Rightarrow> int \<Rightarrow> (error + span_map) \<times> world" where
  "plot_span_map w sig nspans =
     (if nspans > 3 then (Inl (ValueError ''Maximum number of spans allowed is 3''), w)
      else if signal_dimension (signals w ! sig) \<noteq> 1 \<or> navigation_dimension (signals w ! sig) \<noteq> 2 then
        (let sig_dims = signal_dimension (signals w ! sig);
             nav_dims = navigation_dimension (signals w ! sig)
         in (Inl (ValueError (''This method is designed for data with 1 signal and 2 navigation dimensions, not ''
                    @ str_nat sig_dims @ '' and '' @ str_nat nav_dims @ '' respectively'')), w))
      else
        (case signal_axes (signals w ! sig) of
           [] \<Rightarrow> (Inl IndexError, w)
         | a # _ \<Rightarrow>
            (let ax_sig = axis a in
             if ax_sig = [] then (Inl IndexError, w)
             else
               let ax_sig_range = last ax_sig - hd ax_sig;
                   span_width = ax_sig_range / real_of_int (2 * nspans);
                   (all_sum, w1) = new_spectrum w (nansum (signals w ! sig));
                   w2 = plot_spectrum w1 all_sum
               in (case span_loop sig ax_sig span_width all_sum [0..<nat nspans] ([], [], []) w2 of
                     (Inl e, w3) \<Rightarrow> (Inl e, w3)
                   | (Inr (spans, span_sigs, span_sums), w3) \<Rightarrow>
                       (Inr \<lparr>ret_all_sum = all_sum, ret_spans = spans, ret_span_sigs = span_sigs,
                             ret_span_sums = span_sums\<rparr>, w3)))))"

subsection \<open>Well-shaped inputs\<close>

text \<open>
  A validly shaped signal has two navigation axes followed by one signal axis, a
  non-empty coordinate array on the signal axis, and data whose shape is the sizes of the
  three axes. A valid argument is the address of such a signal in the store.
\<close>

definition valid_signal :: "signal \<Rightarrow> bool" where
  "valid_signal s =
     (case axes s of
        [ay, ax, ak] \<Rightarrow>
          navigate ay \<and> navigate ax \<and> \<not> navigate ak \<and> axis ak \<noteq> [] \<and>
          length (data s) = length (axis ay) \<and>
          list_all (\<lambda>row. length row = length (axis ax) \<and>
                          list_all (\<lambda>spec. length spec = length (axis ak)) row) (data s)
      | _ \<Rightarrow> False)"

definition valid_input :: "world \<Rightarrow> nat \<Rightarrow> bool" where
  "valid_input w sig = (sig < length (signals w) \<and> valid_signal (signals w ! sig))"

text \<open>\<open>sig.axes_manager.signal_axes[0].axis\<close>, the coordinate array of the spectral axis.\<close>

definition spectral_axis :: "signal \<Rightarrow> real list" where
  "spectral_axis s = axis (hd (signal_axes s))"


subsection \<open>Reading a decimal numeral\<close>

text \<open>The number that a string of decimal digits denotes, to state what \<open>str_nat\<close> prints.\<close>

definition digit_val :: "char \<Rightarrow> nat" where
  "digit_val c = of_char c - 48"

definition nat_of_str :: "string \<Rightarrow> nat" where
  "nat_of_str cs = foldl (\<lambda>a c. 10 * a + digit_val c) 0 cs"

text \<open>
  \<open>ds\<close> is the decimal numeral of \<open>n\<close>, as \<open>str\<close> prints a non-negative integer: digits
  only, at least one, no leading zero except for the numeral 0 itself, and denoting \<open>n\<close>.
\<close>

definition is_digit :: "char \<Rightarrow> bool" where
  "is_digit c = (c \<in> set ''0123456789'')"

definition decimal_of :: "string \<Rightarrow> nat \<Rightarrow> bool" where
  "decimal_of ds n =
     (ds \<noteq> [] \<and> list_all is_digit ds \<and> (hd ds = CHR ''0'' \<longrightarrow> ds = ''0'') \<and> nat_of_str ds = n)"

subsection \<open>Sums as the specification words them\<close>

text \<open>
  The NaN-safe sum over both spatial axes at spectral channel \<open>k\<close>, written with indices
  over the positions \<open>(y, x)\<close>.
\<close>

definition nav_nansum_spec :: "sample list list list \<Rightarrow> nat \<Rightarrow> real" where
  "nav_nansum_spec d k =
     (\<Sum>y\<leftarrow>[0..<length d]. \<Sum>x\<leftarrow>[0..<length (d ! y)]. nan_to_zero (d ! y ! x ! k))"

text \<open>The NaN-safe sum of one spectrum over the channels \<open>ks\<close>.\<close>

definition span_nansum_spec :: "nat list \<Rightarrow> sample list \<Rightarrow> real" where
  "span_nansum_spec ks spec = (\<Sum>k\<leftarrow>ks. nan_to_zero (spec ! k))"

text \<open>
  A sequence of range changes after the call: each entry \<open>(i, l, r)\<close> sets the range of
  the \<open>i\<close>-th returned span to \<open>(l, r)\<close>.
\<close>

definition set_ranges :: "world \<Rightarrow> nat list \<Rightarrow> (nat \<times> real \<times> real) list \<Rightarrow> world" where
  "set_ranges w spans evs = foldl (\<lambda>w (i, l, r). set_range w (spans ! i) l r) w evs"

subsection \<open>One iteration of the loop as a store update\<close>

text \<open>
  The span that iteration \<open>i\<close> creates, the store after iteration \<open>i\<close>, and the store after
  the iterations of a list of indices; the loop is proved equal to them below.
\<close>

definition init_roi :: "real list \<Rightarrow> real \<Rightarrow> nat \<Rightarrow> span_roi" where
  "init_roi ax_sig span_width i =
     \<lparr>left = real i * span_width + hd ax_sig, right = real (i + 1) * span_width + hd ax_sig,
      changed = []\<rparr>"

definition loop_step :: "nat \<Rightarrow> real list \<Rightarrow> real \<Rightarrow> nat \<Rightarrow> nat \<Rightarrow> world \<Rightarrow> world" where
  "loop_step sig ax_sig span_width all_sum i w =
     w\<lparr>rois := rois w @ [(init_roi ax_sig span_width i)\<lparr>changed := [(sig, length (signals w))]\<rparr>],
       signals := signals w @
         [(roi_call (init_roi ax_sig span_width i) (signals w ! sig))\<lparr>any_axis_changed := [length (images w)]\<rparr>],
       images := images w @ [as_signal2D (nansum_axis (roi_call (init_roi ax_sig span_width i) (signals w ! sig)))],
       plots := plots w @ [ImagePlot (length (images w)) (capitalize (colors ! i) @ ''s'')],
       widgets := widgets w @ [(length (rois w), all_sum, colors ! i)]\<rparr>"

definition loop_world :: "nat \<Rightarrow> real list \<Rightarrow> real \<Rightarrow> nat \<Rightarrow> nat list \<Rightarrow> world \<Rightarrow> world" where
  "loop_world sig ax_sig span_width all_sum is w =
     foldl (\<lambda>w i. loop_step sig ax_sig span_width all_sum i w) w is"

text \<open>\<open>span_width\<close> of line 68, from the signal and the span count.\<close>

definition span_width_of :: "signal \<Rightarrow> int \<Rightarrow> real" where
  "span_width_of s nspans = (last (spectral_axis s) - hd (spectral_axis s)) / real_of_int (2 * nspans)"

text \<open>The store after \<open>all_sum = sig.nansum()\<close> and \<open>all_sum.plot()\<close>.\<close>

definition navigator_world :: "world \<Rightarrow> nat \<Rightarrow> world" where
  "navigator_world w sig =
     w\<lparr>spectra := spectra w @ [nansum (signals w ! sig)],
       plots := plots w @ [SpectrumPlot (length (spectra w))]\<rparr>"

subsection \<open>The link between a span, its slice and its sum\<close>

text \<open>
  The state of the bindings that the call sets up for \<open>n\<close> spans, for the objects created
  from the addresses \<open>nr\<close>, \<open>ns\<close> and \<open>ni\<close> on: each span notifies its slice of \<open>sig\<close>, each
  slice notifies its sum, each slice holds the span's slice of \<open>s0\<close>, the signal at \<open>sig\<close>,
  and each sum holds the slice summed along the spectral axis.
\<close>

definition linked :: "signal \<Rightarrow> nat \<Rightarrow> nat \<Rightarrow> nat \<Rightarrow> nat \<Rightarrow> nat \<Rightarrow> world \<Rightarrow> bool" where
  "linked s0 sig nr ns ni n w =
     (sig < ns \<and> length (rois w) = nr + n \<and> length (signals w) = ns + n \<and>
      length (images w) = ni + n \<and> signals w ! sig = s0 \<and>
      (\<forall>i<n. changed (rois w ! (nr + i)) = [(sig, ns + i)] \<and>
             any_axis_changed (signals w ! (ns + i)) = [ni + i] \<and>
             data (signals w ! (ns + i)) = data (roi_call (rois w ! (nr + i)) s0) \<and>
             axes (signals w ! (ns + i)) = axes (roi_call (rois w ! (nr + i)) s0) \<and>
             idata (images w ! (ni + i)) = nansum_last (data (signals w ! (ns + i)))))"

subsection \<open>Example inputs\<close>

text \<open>A 1 x 2 map of spectra with four channels, two samples NaN.\<close>

definition ex_sig :: signal where
  "ex_sig =
     \<lparr>data = [[[Val 1, Val 2, NaN, Val 4], [Val 10, NaN, Val 30, Val 40]]],
      axes = [\<lparr>axis = [0], navigate = True\<rparr>, \<lparr>axis = [0, 1], navigate = True\<rparr>,
              \<lparr>axis = [1, 2, 3, 5], navigate = False\<rparr>],
      any_axis_changed = []\<rparr>"

definition ex_world :: world where
  "ex_world = \<lparr>signals = [ex_sig], spectra = [], images = [], rois = [], plots = [], widgets = []\<rparr>"

text \<open>A stack of two 1 x 2 images: signal dimension 2, navigation dimension 1.\<close>

definition ex_stack :: signal where
  "ex_stack =
     \<lparr>data = [[[Val 1, Val 2]], [[Val 3, Val 4]]],
      axes = [\<lparr>axis = [0, 1], navigate = True\<rparr>, \<lparr>axis = [0], navigate = False\<rparr>,
              \<lparr>axis = [0, 1], navigate = False\<rparr>],
      any_axis_changed = []\<rparr>"

definition ex_stack_world :: world where
  "ex_stack_world =
     \<lparr>signals = [ex_stack], spectra = [], images = [], rois = [], plots = [], widgets = []\<rparr>"

text \<open>A signal with twelve navigation axes and ten signal axes; its data is never read.\<close>

definition ex_many :: signal where
  "ex_many =
     \<lparr>data = [],
      axes = replicate 12 \<lparr>axis = [0], navigate = True\<rparr> @ replicate 10 \<lparr>axis = [0], navigate = False\<rparr>,
      any_axis_changed = []\<rparr>"

definition ex_many_world :: world where
  "ex_many_world =
     \<lparr>signals = [ex_many], spectra = [], images = [], rois = [], plots = [], widgets = []\<rparr>"



section \<open>The example inputs\<close>

lemma ex_valid_input: "valid_input ex_world 0"
  by (simp add: valid_input_def valid_signal_def ex_world_def ex_sig_def)

lemma ex_axis: "spectral_axis (signals ex_world ! 0) = [1, 2, 3, 5]"
  by (simp add: ex_world_def ex_sig_def spectral_axis_def signal_axes_def)

lemma ex_data: "data (signals ex_world ! 0) = [[[Val 1, Val 2, NaN, Val 4], [Val 10, NaN, Val 30, Val 40]]]"
  by (simp add: ex_world_def ex_sig_def)

lemma ex_stack_dims:
  "signal_dimension (signals ex_stack_world ! 0) = 2"
  "navigation_dimension (signals ex_stack_world ! 0) = 1"
  by (simp_all add: ex_stack_world_def ex_stack_def signal_dimension_def navigation_dimension_def
      signal_axes_def navigation_axes_def)

lemma ex_many_dims:
  "signal_dimension (signals ex_many_world ! 0) = 10"
  "navigation_dimension (signals ex_many_world ! 0) = 12"
  by (simp_all add: ex_many_world_def ex_many_def signal_dimension_def navigation_dimension_def
      signal_axes_def navigation_axes_def)



section \<open>The call in closed form\<close>

subsection \<open>The loop\<close>

lemma nansum_axis_subs: "nansum_axis (s\<lparr>any_axis_changed := x\<rparr>) = nansum_axis s"
  by (simp add: nansum_axis_def)

lemma roi_call_subs [simp]: "any_axis_changed (roi_call r s) = []"
  by (simp add: roi_call_def roi_slice_def empty_signal_def Let_def)

lemma span_channels_changed [simp]: "span_channels (r\<lparr>changed := c\<rparr>) ax = span_channels r ax"
  by (simp add: span_channels_def in_span_def)

lemma roi_slice_changed [simp]: "roi_slice (r\<lparr>changed := c\<rparr>) s out = roi_slice r s out"
  by (simp add: roi_slice_def split: list.split)

lemma roi_call_changed [simp]: "roi_call (r\<lparr>changed := c\<rparr>) s = roi_call r s"
  by (simp add: roi_call_def)

lemma span_loop_Cons:
  assumes "i < 3" "sig < length (signals w)"
  shows "span_loop sig ax_sig span_width all_sum (i # is) (spans, span_sigs, span_sums) w =
         span_loop sig ax_sig span_width all_sum is
           (spans @ [length (rois w)], span_sigs @ [length (signals w)], span_sums @ [length (images w)])
           (loop_step sig ax_sig span_width all_sum i w)"
proof -
  let ?w1 = "snd (SpanROI w (real i * span_width + hd ax_sig) (real (i + 1) * span_width + hd ax_sig))"
  let ?w2 = "add_widget ?w1 (length (rois w)) all_sum (colors ! i)"
  let ?w3 = "snd (interactive_span ?w2 (length (rois w)) sig)"
  let ?w4 = "snd (new_image ?w3 (as_signal2D (nansum_axis (signals ?w3 ! length (signals w)))))"
  let ?w5 = "plot_image ?w4 (length (images w)) (capitalize (colors ! i) @ ''s'')"
  let ?w6 = "interactive_nansum ?w5 (length (signals w)) (length (images w))"
  have w6: "?w6 = loop_step sig ax_sig span_width all_sum i w"
    using assms(2)
    by (intro world.equality)
      (simp_all add: SpanROI_def add_widget_def interactive_span_def new_signal_def new_image_def
        plot_image_def interactive_nansum_def loop_step_def init_roi_def nth_append Let_def)
  have "span_loop sig ax_sig span_width all_sum (i # is) (spans, span_sigs, span_sums) w =
        span_loop sig ax_sig span_width all_sum is
           (spans @ [length (rois w)], span_sigs @ [length (signals w)], span_sums @ [length (images w)]) ?w6"
    using assms(1)
    by (simp add: SpanROI_def add_widget_def interactive_span_def new_signal_def new_image_def
        colors_def Let_def)
  then show ?thesis
    by (simp only: w6)
qed

lemma span_loop_eq:
  assumes "\<forall>i\<in>set is. i < 3" "sig < length (signals w)"
  shows "span_loop sig ax_sig span_width all_sum is (spans, span_sigs, span_sums) w =
         (Inr (spans @ [length (rois w)..<length (rois w) + length is],
               span_sigs @ [length (signals w)..<length (signals w) + length is],
               span_sums @ [length (images w)..<length (images w) + length is]),
          loop_world sig ax_sig span_width all_sum is w)"
  using assms
proof (induction "is" arbitrary: w spans span_sigs span_sums)
  case Nil
  then show ?case by (simp add: loop_world_def)
next
  case (Cons i "is")
  let ?w = "loop_step sig ax_sig span_width all_sum i w"
  have len: "length (rois ?w) = Suc (length (rois w))" "length (signals ?w) = Suc (length (signals w))"
    "length (images ?w) = Suc (length (images w))"
    by (simp_all add: loop_step_def)
  have "span_loop sig ax_sig span_width all_sum (i # is) (spans, span_sigs, span_sums) w =
        span_loop sig ax_sig span_width all_sum is
           (spans @ [length (rois w)], span_sigs @ [length (signals w)], span_sums @ [length (images w)]) ?w"
    using Cons.prems by (intro span_loop_Cons) simp_all
  also have "\<dots> = (Inr ((spans @ [length (rois w)]) @ [length (rois ?w)..<length (rois ?w) + length is],
               (span_sigs @ [length (signals w)]) @ [length (signals ?w)..<length (signals ?w) + length is],
               (span_sums @ [length (images w)]) @ [length (images ?w)..<length (images ?w) + length is]),
          loop_world sig ax_sig span_width all_sum is ?w)"
    using Cons.prems by (intro Cons.IH) (simp_all add: len)
  finally show ?case
    by (simp add: len loop_world_def upt_conv_Cons del: upt_Suc span_loop.simps)
qed

lemma span_loop_no_ValueError:
  "fst (span_loop sig ax_sig span_width all_sum is acc w) \<noteq> Inl (ValueError msg)"
proof (induction "is" arbitrary: acc w)
  case Nil
  then show ?case by simp
next
  case (Cons i "is")
  obtain spans span_sigs span_sums where acc: "acc = (spans, span_sigs, span_sums)"
    by (cases acc) auto
  show ?case
    unfolding acc by (simp add: Let_def Cons.IH split: prod.splits)
qed

lemma loop_world_Cons:
  "loop_world sig ax_sig span_width all_sum (i # is) w =
   loop_world sig ax_sig span_width all_sum is (loop_step sig ax_sig span_width all_sum i w)"
  by (simp add: loop_world_def)

lemma loop_world_spectra: "spectra (loop_world sig ax_sig span_width all_sum is w) = spectra w"
  by (induction "is" arbitrary: w) (simp_all add: loop_world_def loop_step_def)

lemma loop_world_rois:
  "rois (loop_world sig ax_sig span_width all_sum is w) =
   rois w @ map (\<lambda>(a, i). (init_roi ax_sig span_width i)\<lparr>changed := [(sig, a)]\<rparr>)
                (zip [length (signals w)..<length (signals w) + length is] is)"
proof (induction "is" arbitrary: w)
  case Nil
  then show ?case by (simp add: loop_world_def)
next
  case (Cons i "is")
  show ?case
    by (simp add: loop_world_Cons Cons.IH upt_conv_Cons del: upt_Suc) (simp add: loop_step_def)
qed

lemma loop_world_signals:
  assumes "sig < length (signals w)"
  shows "signals (loop_world sig ax_sig span_width all_sum is w) =
   signals w @ map (\<lambda>(a, i). (roi_call (init_roi ax_sig span_width i) (signals w ! sig))\<lparr>any_axis_changed := [a]\<rparr>)
                (zip [length (images w)..<length (images w) + length is] is)"
  using assms
proof (induction "is" arbitrary: w)
  case Nil
  then show ?case by (simp add: loop_world_def)
next
  case (Cons i "is")
  let ?w = "loop_step sig ax_sig span_width all_sum i w"
  have "sig < length (signals ?w)" "signals ?w ! sig = signals w ! sig"
    using Cons.prems by (simp_all add: loop_step_def nth_append)
  then show ?case
    by (simp add: loop_world_Cons Cons.IH upt_conv_Cons del: upt_Suc) (simp add: loop_step_def)
qed

lemma loop_world_images:
  assumes "sig < length (signals w)"
  shows "images (loop_world sig ax_sig span_width all_sum is w) =
   images w @ map (\<lambda>i. as_signal2D (nansum_axis (roi_call (init_roi ax_sig span_width i) (signals w ! sig)))) is"
  using assms
proof (induction "is" arbitrary: w)
  case Nil
  then show ?case by (simp add: loop_world_def)
next
  case (Cons i "is")
  let ?w = "loop_step sig ax_sig span_width all_sum i w"
  have "sig < length (signals ?w)" "signals ?w ! sig = signals w ! sig"
    using Cons.prems by (simp_all add: loop_step_def nth_append)
  then show ?case
    by (simp add: loop_world_Cons Cons.IH) (simp add: loop_step_def)
qed

lemma loop_world_plots:
  "plots (loop_world sig ax_sig span_width all_sum is w) =
   plots w @ map (\<lambda>(a, i). ImagePlot a (capitalize (colors ! i) @ ''s''))
                (zip [length (images w)..<length (images w) + length is] is)"
proof (induction "is" arbitrary: w)
  case Nil
  then show ?case by (simp add: loop_world_def)
next
  case (Cons i "is")
  show ?case
    by (simp add: loop_world_Cons Cons.IH upt_conv_Cons del: upt_Suc) (simp add: loop_step_def)
qed

lemma loop_world_widgets:
  "widgets (loop_world sig ax_sig span_width all_sum is w) =
   widgets w @ map (\<lambda>(a, i). (a, all_sum, colors ! i))
                (zip [length (rois w)..<length (rois w) + length is] is)"
proof (induction "is" arbitrary: w)
  case Nil
  then show ?case by (simp add: loop_world_def)
next
  case (Cons i "is")
  show ?case
    by (simp add: loop_world_Cons Cons.IH upt_conv_Cons del: upt_Suc) (simp add: loop_step_def)
qed

lemma loop_world_lengths:
  "length (rois (loop_world sig ax sw a is w)) = length (rois w) + length is"
  "sig < length (signals w) \<Longrightarrow>
   length (signals (loop_world sig ax sw a is w)) = length (signals w) + length is"
  "sig < length (signals w) \<Longrightarrow>
   length (images (loop_world sig ax sw a is w)) = length (images w) + length is"
  by (simp_all add: loop_world_rois loop_world_signals loop_world_images)

subsection \<open>The whole call\<close>

lemma valid_signal_axes:
  assumes "valid_signal s"
  shows "signal_axes s = [axes s ! 2]" "length (navigation_axes s) = 2"
    "signal_dimension s = 1" "navigation_dimension s = 2" "spectral_axis s \<noteq> []"
    "spectral_axis s = axis (axes s ! 2)"
  using assms
  by (auto simp add: valid_signal_def signal_axes_def navigation_axes_def signal_dimension_def
      navigation_dimension_def spectral_axis_def split: list.splits)

lemma valid_input_accepted:
  assumes "valid_input w sig"
  shows "sig < length (signals w)" "signal_dimension (signals w ! sig) = 1"
    "navigation_dimension (signals w ! sig) = 2" "spectral_axis (signals w ! sig) \<noteq> []"
  using assms valid_signal_axes [of "signals w ! sig"] by (simp_all add: valid_input_def)

lemma valid_signal_spectra:
  assumes "valid_signal s"
  shows "\<forall>xs\<in>set (concat (data s)). length xs = length (spectral_axis s)"
  using assms valid_signal_axes(6) [OF assms]
  by (auto simp add: valid_signal_def list_all_iff split: list.splits)

lemma navigator_world_simps [simp]:
  "signals (navigator_world w sig) = signals w"
  "rois (navigator_world w sig) = rois w"
  "images (navigator_world w sig) = images w"
  "widgets (navigator_world w sig) = widgets w"
  "spectra (navigator_world w sig) = spectra w @ [nansum (signals w ! sig)]"
  "plots (navigator_world w sig) = plots w @ [SpectrumPlot (length (spectra w))]"
  by (simp_all add: navigator_world_def)

lemma plot_span_map_accepted:
  assumes "sig < length (signals w)" "signal_dimension (signals w ! sig) = 1"
    "navigation_dimension (signals w ! sig) = 2" "spectral_axis (signals w ! sig) \<noteq> []"
    "nspans \<le> 3"
  shows "plot_span_map w sig nspans =
    (Inr \<lparr>ret_all_sum = length (spectra w),
          ret_spans = [length (rois w)..<length (rois w) + nat nspans],
          ret_span_sigs = [length (signals w)..<length (signals w) + nat nspans],
          ret_span_sums = [length (images w)..<length (images w) + nat nspans]\<rparr>,
     loop_world sig (spectral_axis (signals w ! sig)) (span_width_of (signals w ! sig) nspans)
       (length (spectra w)) [0..<nat nspans] (navigator_world w sig))"
proof -
  let ?s = "signals w ! sig"
  let ?w = "navigator_world w sig"
  have loop: "span_loop sig (spectral_axis ?s) (span_width_of ?s nspans) (length (spectra w))
          [0..<nat nspans] ([], [], []) ?w =
        (Inr ([] @ [length (rois ?w)..<length (rois ?w) + length [0..<nat nspans]],
              [] @ [length (signals ?w)..<length (signals ?w) + length [0..<nat nspans]],
              [] @ [length (images ?w)..<length (images ?w) + length [0..<nat nspans]]),
         loop_world sig (spectral_axis ?s) (span_width_of ?s nspans) (length (spectra w))
           [0..<nat nspans] ?w)"
    using assms(1,5) by (intro span_loop_eq) (auto simp add: navigator_world_def)
  obtain a where a: "signal_axes ?s = [a]"
    using assms(2) by (auto simp add: signal_dimension_def length_Suc_conv)
  show ?thesis
    using assms(2-5) loop a
    by (simp add: plot_span_map_def Let_def new_spectrum_def plot_spectrum_def navigator_world_def
        span_width_of_def spectral_axis_def del: span_loop.simps)
qed

lemma plot_span_map_eq:
  assumes "valid_input w sig" "nspans \<le> 3"
  shows "plot_span_map w sig nspans =
    (Inr \<lparr>ret_all_sum = length (spectra w),
          ret_spans = [length (rois w)..<length (rois w) + nat nspans],
          ret_span_sigs = [length (signals w)..<length (signals w) + nat nspans],
          ret_span_sums = [length (images w)..<length (images w) + nat nspans]\<rparr>,
     loop_world sig (spectral_axis (signals w ! sig)) (span_width_of (signals w ! sig) nspans)
       (length (spectra w)) [0..<nat nspans] (navigator_world w sig))"
  using valid_input_accepted [OF assms(1)] assms(2) by (rule plot_span_map_accepted)

lemma zip_upt_shift: "zip [a..<a + n] [0..<n] = map (\<lambda>i. (a + i, i)) [0..<n]"
  by (rule nth_equalityI) simp_all

lemma final_rois:
  assumes "i < n"
  shows "rois (loop_world sig ax sw a [0..<n] w) ! (length (rois w) + i) =
         (init_roi ax sw i)\<lparr>changed := [(sig, length (signals w) + i)]\<rparr>"
    and "length (rois (loop_world sig ax sw a [0..<n] w)) = length (rois w) + n"
  using assms by (simp_all add: loop_world_rois zip_upt_shift)

lemma final_signals:
  assumes "sig < length (signals w)"
  shows "i < n \<Longrightarrow> signals (loop_world sig ax sw a [0..<n] w) ! (length (signals w) + i) =
         (roi_call (init_roi ax sw i) (signals w ! sig))\<lparr>any_axis_changed := [length (images w) + i]\<rparr>"
    and "length (signals (loop_world sig ax sw a [0..<n] w)) = length (signals w) + n"
    and "k < length (signals w) \<Longrightarrow> signals (loop_world sig ax sw a [0..<n] w) ! k = signals w ! k"
  using assms by (simp_all add: loop_world_signals zip_upt_shift nth_append)

lemma final_images:
  assumes "sig < length (signals w)"
  shows "i < n \<Longrightarrow> images (loop_world sig ax sw a [0..<n] w) ! (length (images w) + i) =
         as_signal2D (nansum_axis (roi_call (init_roi ax sw i) (signals w ! sig)))"
    and "length (images (loop_world sig ax sw a [0..<n] w)) = length (images w) + n"
  using assms by (simp_all add: loop_world_images)

lemma final_world:
  fixes ax sw a n w sig
  defines "w' \<equiv> loop_world sig ax sw a [0..<n] (navigator_world w sig)"
  assumes "sig < length (signals w)" "i < n"
  shows "rois w' ! (length (rois w) + i) = (init_roi ax sw i)\<lparr>changed := [(sig, length (signals w) + i)]\<rparr>"
    and "signals w' ! (length (signals w) + i) =
         (roi_call (init_roi ax sw i) (signals w ! sig))\<lparr>any_axis_changed := [length (images w) + i]\<rparr>"
    and "images w' ! (length (images w) + i) = as_signal2D (nansum_axis (roi_call (init_roi ax sw i) (signals w ! sig)))"
  using assms final_rois(1) [of i n sig ax sw a "navigator_world w sig"]
    final_signals(1) [of sig "navigator_world w sig" i n ax sw a]
    final_images(1) [of sig "navigator_world w sig" i n ax sw a]
  by simp_all

section \<open>Validation\<close>

text \<open>\<open>str_nat\<close> prints a number in decimal: reading the digits back gives the number.\<close>

lemma digit_val_digit_char: "d < 10 \<Longrightarrow> digit_val (digit_char d) = d"
proof -
  assume "d < 10"
  then have "d \<in> {0, 1, 2, 3, 4, 5, 6, 7, 8, 9}"
    by auto
  then show ?thesis
    by (auto simp add: digit_val_def digit_char_def)
qed

lemma nat_of_str_snoc: "nat_of_str (cs @ [c]) = 10 * nat_of_str cs + digit_val c"
  by (simp add: nat_of_str_def)

lemma str_nat_decimal: "nat_of_str (str_nat n) = n"
proof (induction n rule: str_nat.induct)
  case (1 n)
  show ?case
  proof (cases "n < 10")
    case True
    then show ?thesis
      by (simp add: str_nat.simps [of n] nat_of_str_def digit_val_digit_char)
  next
    case False
    then have "nat_of_str (str_nat n) = 10 * nat_of_str (str_nat (n div 10)) + digit_val (digit_char (n mod 10))"
      by (simp add: str_nat.simps [of n] nat_of_str_snoc)
    also have "\<dots> = 10 * (n div 10) + n mod 10"
      using False by (simp add: "1.IH" digit_val_digit_char)
    finally show ?thesis by simp
  qed
qed

text \<open>
  C3. The specification gives the message of the span-count error as "maximum number of
  spans allowed is 3". The message in the code starts with a capital letter, so the error
  raised for \<open>nspans = 4\<close> is not the error with the specification's message.
\<close>

theorem too_many_spans_message_counterexample:
  "fst (plot_span_map ex_world 0 4) = Inl (ValueError ''Maximum number of spans allowed is 3'') \<and>
   fst (plot_span_map ex_world 0 4) \<noteq> Inl (ValueError ''maximum number of spans allowed is 3'')"
  by (simp add: plot_span_map_def)

text \<open>
  C3, amended. For every input with \<open>nspans > 3\<close> the call raises the invalid-argument
  error with the message "Maximum number of spans allowed is 3", also when the signal
  violates the dimensionality condition as well.
\<close>

theorem too_many_spans:
  "nspans > 3 \<Longrightarrow>
   fst (plot_span_map w sig nspans) = Inl (ValueError ''Maximum number of spans allowed is 3'')"
  by (simp add: plot_span_map_def)

theorem too_many_spans_witness:
  "(4::int) > 3 \<and> signal_dimension (signals ex_stack_world ! 0) \<noteq> 1 \<and>
   fst (plot_span_map ex_stack_world 0 4) = Inl (ValueError ''Maximum number of spans allowed is 3'')"
  using too_many_spans [of 4 ex_stack_world 0] by (simp add: ex_stack_dims)

text \<open>\<open>str_nat\<close> prints the decimal numeral of its argument.\<close>

lemma digit_char_cases:
  assumes "d < 10"
  shows "is_digit (digit_char d)" "digit_char d = CHR ''0'' \<Longrightarrow> d = 0"
proof -
  have d: "d \<in> {0, 1, 2, 3, 4, 5, 6, 7, 8, 9}"
    using assms by auto
  show "is_digit (digit_char d)"
    using d by (auto simp add: is_digit_def digit_char_def)
  show "d = 0" if "digit_char d = CHR ''0''"
    using d that by (auto simp add: digit_char_def)
qed

lemma str_nat_nonempty: "str_nat n \<noteq> []"
  by (simp add: str_nat.simps [of n])

lemma str_nat_digits: "list_all is_digit (str_nat n)"
proof (induction n rule: str_nat.induct)
  case (1 n)
  show ?case
  proof (cases "n < 10")
    case True
    then show ?thesis
      by (simp add: str_nat.simps [of n] digit_char_cases(1))
  next
    case False
    then show ?thesis
      using "1.IH" by (simp add: str_nat.simps [of n] digit_char_cases(1))
  qed
qed

lemma str_nat_no_leading_zero: "hd (str_nat n) = CHR ''0'' \<Longrightarrow> str_nat n = ''0''"
proof (induction n rule: str_nat.induct)
  case (1 n)
  show ?case
  proof (cases "n < 10")
    case True
    then have "n = 0"
      using "1.prems" digit_char_cases(2) [of n] by (simp add: str_nat.simps [of n])
    then show ?thesis
      by (simp add: str_nat.simps [of 0] digit_char_def)
  next
    case False
    then have "hd (str_nat n) = hd (str_nat (n div 10))"
      by (simp add: str_nat.simps [of n] str_nat_nonempty)
    then have "str_nat (n div 10) = ''0''"
      using False "1.IH" "1.prems" by simp
    then have "nat_of_str (str_nat (n div 10)) = nat_of_str ''0''"
      by simp
    moreover have "nat_of_str ''0'' = 0"
      by (simp add: nat_of_str_def digit_val_def)
    ultimately have "n div 10 = 0"
      by (simp only: str_nat_decimal)
    then show ?thesis
      using False by simp
  qed
qed

lemma decimal_of_str_nat: "decimal_of (str_nat n) n"
  using str_nat_no_leading_zero [of n]
  by (simp add: decimal_of_def str_nat_nonempty str_nat_digits str_nat_decimal)

text \<open>The decimal numeral of a number is unique, so it is the string that \<open>str_nat\<close> prints.\<close>

lemma is_digit_val:
  assumes "is_digit c"
  shows "digit_val c < 10" "digit_char (digit_val c) = c"
  using assms by (auto simp add: is_digit_def digit_val_def digit_char_def)

lemma nat_of_str_zero:
  assumes "list_all is_digit cs" "nat_of_str cs = 0" "cs \<noteq> []"
  shows "hd cs = CHR ''0''"
  using assms
proof (induction cs rule: rev_induct)
  case Nil
  then show ?case by simp
next
  case (snoc c cs)
  have z: "nat_of_str cs = 0" "digit_val c = 0"
    using snoc.prems(2) by (simp_all add: nat_of_str_snoc)
  have c: "c = CHR ''0''"
    using is_digit_val(2) [of c] snoc.prems(1) z(2) by (simp add: digit_char_def)
  show ?case
  proof (cases "cs = []")
    case True
    then show ?thesis by (simp add: c)
  next
    case False
    then show ?thesis
      using snoc.IH snoc.prems(1) z(1) by simp
  qed
qed

lemma decimal_of_unique: "decimal_of ds n \<Longrightarrow> ds = str_nat n"
proof (induction n arbitrary: ds rule: str_nat.induct)
  case (1 n)
  have ne: "ds \<noteq> []" and dig: "list_all is_digit ds"
    and lead: "hd ds = CHR ''0'' \<Longrightarrow> ds = ''0''" and val: "nat_of_str ds = n"
    using "1.prems" by (simp_all add: decimal_of_def)
  obtain bs c where ds: "ds = bs @ [c]"
    using ne by (cases ds rule: rev_cases) auto
  have cd: "is_digit c" and bd: "list_all is_digit bs"
    using dig by (simp_all add: ds)
  have n: "n = 10 * nat_of_str bs + digit_val c"
    using val by (simp add: ds nat_of_str_snoc)
  have c10: "digit_val c < 10"
    using cd by (rule is_digit_val(1))
  have md: "n mod 10 = digit_val c" "n div 10 = nat_of_str bs"
    using n c10 by simp_all
  have c: "c = digit_char (n mod 10)"
    using is_digit_val(2) [OF cd] by (simp add: md)
  have hd_bs: "hd ds = hd bs" if "bs \<noteq> []"
    using that by (simp add: ds)
  show ?case
  proof (cases "n < 10")
    case True
    then have z: "nat_of_str bs = 0"
      using md(2) by simp
    have "bs = []"
    proof (rule ccontr)
      assume b: "bs \<noteq> []"
      then have "hd ds = CHR ''0''"
        using nat_of_str_zero [OF bd z b] hd_bs by simp
      then have "ds = ''0''"
        by (rule lead)
      then show False
        using b by (simp add: ds)
    qed
    then show ?thesis
      using True c by (simp add: ds str_nat.simps [of n])
  next
    case False
    then have pos: "nat_of_str bs \<noteq> 0"
      using md(2) by simp
    then have b: "bs \<noteq> []"
      by (auto simp add: nat_of_str_def)
    have "hd bs \<noteq> CHR ''0''"
    proof
      assume "hd bs = CHR ''0''"
      then have "ds = ''0''"
        using lead hd_bs [OF b] by simp
      then show False
        using b by (simp add: ds)
    qed
    then have "decimal_of bs (n div 10)"
      using b bd md(2) by (simp add: decimal_of_def)
    then have "bs = str_nat (n div 10)"
      using False by (intro "1.IH") simp_all
    then show ?thesis
      using False c by (simp add: ds str_nat.simps [of n])
  qed
qed

text \<open>
  C4. For every \<open>nspans \<le> 3\<close> and every signal whose signal dimension is not 1 or whose
  navigation dimension is not 2, the call raises the invalid-argument error whose message
  is "This method is designed for data with 1 signal and 2 navigation dimensions, not
  \<open>ds\<close> and \<open>dn\<close> respectively", where \<open>ds\<close> is the one decimal numeral of the signal dimension
  found and \<open>dn\<close> the one decimal numeral of the navigation dimension found.
\<close>

theorem wrong_dimensions:
  "nspans \<le> 3 \<Longrightarrow>
   signal_dimension (signals w ! sig) \<noteq> 1 \<or> navigation_dimension (signals w ! sig) \<noteq> 2 \<Longrightarrow>
   \<exists>ds dn. decimal_of ds (signal_dimension (signals w ! sig)) \<and>
     decimal_of dn (navigation_dimension (signals w ! sig)) \<and>
     (\<forall>ds'. decimal_of ds' (signal_dimension (signals w ! sig)) \<longrightarrow> ds' = ds) \<and>
     (\<forall>dn'. decimal_of dn' (navigation_dimension (signals w ! sig)) \<longrightarrow> dn' = dn) \<and>
     fst (plot_span_map w sig nspans) =
       Inl (ValueError (''This method is designed for data with 1 signal and 2 navigation dimensions, not ''
              @ ds @ '' and '' @ dn @ '' respectively''))"
  by (intro exI [of _ "str_nat (signal_dimension (signals w ! sig))"]
      exI [of _ "str_nat (navigation_dimension (signals w ! sig))"])
    (simp add: plot_span_map_def Let_def decimal_of_str_nat decimal_of_unique)

theorem wrong_dimensions_witness:
  "(1::int) \<le> 3 \<and> signal_dimension (signals ex_many_world ! 0) \<noteq> 1 \<and>
   decimal_of ''10'' (signal_dimension (signals ex_many_world ! 0)) \<and>
   decimal_of ''12'' (navigation_dimension (signals ex_many_world ! 0)) \<and>
   fst (plot_span_map ex_many_world 0 1) =
     Inl (ValueError ''This method is designed for data with 1 signal and 2 navigation dimensions, not 10 and 12 respectively'')"
proof -
  have a: "(1::int) \<le> 3" by simp
  have b: "signal_dimension (signals ex_many_world ! 0) \<noteq> 1 \<or> navigation_dimension (signals ex_many_world ! 0) \<noteq> 2"
    by (simp add: ex_many_dims)
  have c: "decimal_of ''10'' (signal_dimension (signals ex_many_world ! 0))"
    "decimal_of ''12'' (navigation_dimension (signals ex_many_world ! 0))"
    by (simp_all add: ex_many_dims decimal_of_def is_digit_def nat_of_str_def digit_val_def)
  obtain ds dn where u: "\<forall>ds'. decimal_of ds' (signal_dimension (signals ex_many_world ! 0)) \<longrightarrow> ds' = ds"
      "\<forall>dn'. decimal_of dn' (navigation_dimension (signals ex_many_world ! 0)) \<longrightarrow> dn' = dn"
    and m: "fst (plot_span_map ex_many_world 0 1) =
       Inl (ValueError (''This method is designed for data with 1 signal and 2 navigation dimensions, not ''
              @ ds @ '' and '' @ dn @ '' respectively''))"
    using wrong_dimensions [OF a b] by blast
  have "ds = ''10''" "dn = ''12''"
    using u c by auto
  then show ?thesis
    using a b c m by (simp add: ex_many_dims)
qed

text \<open>
  C8. Whenever a validation fails (\<open>nspans > 3\<close>, or the wrong dimensionality), the call
  raises an invalid-argument error and leaves the store as it found it: no plot is
  opened, no span, signal or image is created, no widget is added, no binding is
  registered, and the signal is not changed.
\<close>

theorem validation_failure_no_effect:
  "nspans > 3 \<or> signal_dimension (signals w ! sig) \<noteq> 1 \<or> navigation_dimension (signals w ! sig) \<noteq> 2 \<Longrightarrow>
   (\<exists>msg. fst (plot_span_map w sig nspans) = Inl (ValueError msg)) \<and>
   snd (plot_span_map w sig nspans) = w"
  by (auto simp add: plot_span_map_def Let_def)

theorem validation_failure_no_effect_witness:
  "signal_dimension (signals ex_stack_world ! 0) \<noteq> 1 \<and>
   (\<exists>msg. fst (plot_span_map ex_stack_world 0 2) = Inl (ValueError msg)) \<and>
   snd (plot_span_map ex_stack_world 0 2) = ex_stack_world \<and>
   (\<exists>msg. fst (plot_span_map ex_world 0 4) = Inl (ValueError msg)) \<and>
   snd (plot_span_map ex_world 0 4) = ex_world"
  using validation_failure_no_effect [of 2 ex_stack_world 0]
    validation_failure_no_effect [of 4 ex_world 0]
  by (simp add: ex_stack_dims)

text \<open>
  C10. The span-count error is raised exactly when \<open>nspans > 3\<close>. For \<open>nspans \<le> 0\<close> and a
  validly shaped signal the call returns: the navigator is computed and plotted, the loop
  body does not run, and the three sequences are empty.
\<close>

theorem nonpositive_span_count:
  "(fst (plot_span_map w sig nspans) = Inl (ValueError ''Maximum number of spans allowed is 3''))
     = (3 < nspans) \<and>
   (valid_input w sig \<and> nspans \<le> 0 \<longrightarrow>
      plot_span_map w sig nspans =
        (Inr \<lparr>ret_all_sum = length (spectra w), ret_spans = [], ret_span_sigs = [], ret_span_sums = []\<rparr>,
         w\<lparr>spectra := spectra w @ [nansum (signals w ! sig)],
           plots := plots w @ [SpectrumPlot (length (spectra w))]\<rparr>))"
proof (intro conjI impI)
  show "(fst (plot_span_map w sig nspans) = Inl (ValueError ''Maximum number of spans allowed is 3''))
     = (3 < nspans)"
    using span_loop_no_ValueError [of sig _ _ _ _ "([], [], [])"]
    by (auto simp add: plot_span_map_def Let_def split: list.splits prod.splits sum.splits)
      (metis fst_conv)
next
  assume a: "valid_input w sig \<and> nspans \<le> 0"
  then show "plot_span_map w sig nspans =
        (Inr \<lparr>ret_all_sum = length (spectra w), ret_spans = [], ret_span_sigs = [], ret_span_sums = []\<rparr>,
         w\<lparr>spectra := spectra w @ [nansum (signals w ! sig)],
           plots := plots w @ [SpectrumPlot (length (spectra w))]\<rparr>)"
    by (simp add: plot_span_map_eq loop_world_def navigator_world_def)
qed

theorem nonpositive_span_count_witness:
  "valid_input ex_world 0 \<and> (- 1::int) \<le> 0 \<and>
   plot_span_map ex_world 0 (- 1) =
     (Inr \<lparr>ret_all_sum = 0, ret_spans = [], ret_span_sigs = [], ret_span_sums = []\<rparr>,
      ex_world\<lparr>spectra := [nansum ex_sig], plots := [SpectrumPlot 0]\<rparr>) \<and>
   plot_span_map ex_world 0 0 =
     (Inr \<lparr>ret_all_sum = 0, ret_spans = [], ret_span_sigs = [], ret_span_sums = []\<rparr>,
      ex_world\<lparr>spectra := [nansum ex_sig], plots := [SpectrumPlot 0]\<rparr>)"
  using nonpositive_span_count [of ex_world 0 "- 1"] nonpositive_span_count [of ex_world 0 0]
    ex_valid_input
  by (simp add: ex_world_def)

section \<open>What a successful call returns\<close>

text \<open>
  C5. For every \<open>nspans\<close> in \<open>{1, 2, 3}\<close> and every validly shaped signal the call
  returns the four results; the three sequences have length \<open>nspans\<close>; their \<open>i\<close>-th
  entries are the \<open>i\<close>-th span, slice and sum created by the call; the \<open>i\<close>-th span's
  \<open>changed\<close> event recomputes the \<open>i\<close>-th slice from \<open>sig\<close>, the \<open>i\<close>-th slice is the span's
  slice of \<open>sig\<close> and its axis event recomputes the \<open>i\<close>-th sum, and the \<open>i\<close>-th sum is the
  slice summed along the spectral axis.
\<close>

theorem returns_aligned_sequences:
  assumes "valid_input w sig" "1 \<le> nspans" "nspans \<le> 3"
  shows "\<exists>res w'. plot_span_map w sig nspans = (Inr res, w') \<and>
     length (ret_spans res) = nat nspans \<and> length (ret_span_sigs res) = nat nspans \<and>
     length (ret_span_sums res) = nat nspans \<and>
     (\<forall>i<nat nspans.
        ret_spans res ! i = length (rois w) + i \<and>
        ret_span_sigs res ! i = length (signals w) + i \<and>
        ret_span_sums res ! i = length (images w) + i \<and>
        changed (rois w' ! (ret_spans res ! i)) = [(sig, ret_span_sigs res ! i)] \<and>
        signals w' ! (ret_span_sigs res ! i) =
          (roi_call (rois w' ! (ret_spans res ! i)) (signals w ! sig))\<lparr>any_axis_changed := [ret_span_sums res ! i]\<rparr> \<and>
        images w' ! (ret_span_sums res ! i) = as_signal2D (nansum_axis (signals w' ! (ret_span_sigs res ! i))))"
proof -
  have lt: "sig < length (signals w)"
    using assms(1) by (simp add: valid_input_def)
  show ?thesis
    by (simp add: plot_span_map_eq [OF assms(1,3)] final_world [OF lt] nansum_axis_subs)
qed

theorem returns_aligned_sequences_witness:
  "valid_input ex_world 0 \<and> (1::int) \<le> 2 \<and> (2::int) \<le> 3 \<and>
   (\<exists>res w'. plot_span_map ex_world 0 2 = (Inr res, w') \<and>
     length (ret_spans res) = 2 \<and> length (ret_span_sigs res) = 2 \<and> length (ret_span_sums res) = 2 \<and>
     ret_spans res ! 0 = 0 \<and> ret_span_sigs res ! 0 = 1 \<and> ret_span_sums res ! 0 = 0 \<and>
     ret_spans res ! 1 = 1 \<and> ret_span_sigs res ! 1 = 2 \<and> ret_span_sums res ! 1 = 1 \<and>
     changed (rois w' ! (ret_spans res ! 1)) = [(0, ret_span_sigs res ! 1)] \<and>
     signals w' ! (ret_span_sigs res ! 1) =
       (roi_call (rois w' ! (ret_spans res ! 1)) ex_sig)\<lparr>any_axis_changed := [ret_span_sums res ! 1]\<rparr> \<and>
     images w' ! (ret_span_sums res ! 1) = as_signal2D (nansum_axis (signals w' ! (ret_span_sigs res ! 1))))"
proof -
  have "(0::nat) < nat 2" "(1::nat) < nat 2"
    by simp_all
  then show ?thesis
    using returns_aligned_sequences [OF ex_valid_input, of 2] ex_valid_input
    by (fastforce simp add: ex_world_def)
qed

lemma capitalize_colors:
  "capitalize (colors ! 0) @ ''s'' = ''Reds''"
  "capitalize (colors ! 1) @ ''s'' = ''Greens''"
  "capitalize (colors ! 2) @ ''s'' = ''Blues''"
  by code_simp+

lemma colors_cmaps:
  "i < 3 \<Longrightarrow> capitalize (colors ! i) @ ''s'' = [''Reds'', ''Greens'', ''Blues''] ! i"
  "i < 3 \<Longrightarrow> colors ! i = [''red'', ''green'', ''blue''] ! (i mod 3)"
proof -
  assume "i < 3"
  then have "i = 0 \<or> i = 1 \<or> i = 2" by auto
  then show "capitalize (colors ! i) @ ''s'' = [''Reds'', ''Greens'', ''Blues''] ! i"
    using capitalize_colors by auto
  show "colors ! i = [''red'', ''green'', ''blue''] ! (i mod 3)"
    using \<open>i < 3\<close> by (simp add: colors_def)
qed

text \<open>
  C7. The widget of span \<open>i\<close> is added to the navigator with the \<open>i\<close>-th colour of the
  palette red, green, blue (taken by index; \<open>i mod 3 = i\<close> for the indices that occur),
  and the sum of span \<open>i\<close> is plotted with the colour map "Reds", "Greens", "Blues" for
  \<open>i = 0, 1, 2\<close>: the capitalised colour name followed by "s". These are all the widgets and
  plots of the call besides the plot of the navigator.
\<close>

theorem span_colors:
  assumes "valid_input w sig" "nspans \<le> 3"
  shows "\<exists>res w'. plot_span_map w sig nspans = (Inr res, w') \<and>
     widgets w' = widgets w @
       map (\<lambda>i. (ret_spans res ! i, ret_all_sum res, [''red'', ''green'', ''blue''] ! (i mod 3))) [0..<nat nspans] \<and>
     plots w' = plots w @ SpectrumPlot (ret_all_sum res) #
       map (\<lambda>i. ImagePlot (ret_span_sums res ! i) ([''Reds'', ''Greens'', ''Blues''] ! i)) [0..<nat nspans]"
proof -
  have n: "\<And>i. i \<in> set [0..<nat nspans] \<Longrightarrow> i < 3"
    using assms(2) by auto
  have "map (\<lambda>i. (length (rois w) + i, length (spectra w), colors ! i)) [0..<nat nspans] =
        map (\<lambda>i. (length (rois w) + i, length (spectra w), [''red'', ''green'', ''blue''] ! (i mod 3))) [0..<nat nspans]"
    by (intro map_cong refl) (simp only: colors_cmaps(2) [OF n])
  moreover have "map (\<lambda>i. ImagePlot (length (images w) + i) (capitalize (colors ! i) @ ''s'')) [0..<nat nspans] =
        map (\<lambda>i. ImagePlot (length (images w) + i) ([''Reds'', ''Greens'', ''Blues''] ! i)) [0..<nat nspans]"
    by (intro map_cong refl) (simp only: colors_cmaps(1) [OF n])
  ultimately show ?thesis
    by (simp add: plot_span_map_eq [OF assms] loop_world_widgets loop_world_plots zip_upt_shift
        cong: map_cong)
qed

theorem span_colors_witness:
  "valid_input ex_world 0 \<and> (3::int) \<le> 3 \<and>
   (\<exists>res w'. plot_span_map ex_world 0 3 = (Inr res, w') \<and>
     widgets w' = [(ret_spans res ! 0, ret_all_sum res, ''red''), (ret_spans res ! 1, ret_all_sum res, ''green''),
                   (ret_spans res ! 2, ret_all_sum res, ''blue'')] \<and>
     plots w' = [SpectrumPlot (ret_all_sum res), ImagePlot (ret_span_sums res ! 0) ''Reds'',
                 ImagePlot (ret_span_sums res ! 1) ''Greens'', ImagePlot (ret_span_sums res ! 2) ''Blues''])"
  using span_colors [OF ex_valid_input, of 3] ex_valid_input
  by (simp add: ex_world_def upt_conv_Cons numeral_2_eq_2 del: upt_Suc)

section \<open>The input signal\<close>

text \<open>
  C9. For every call, whether it returns or raises, the object \<open>sig\<close> is the same after
  the call as before: its data, its axes and its connections.
\<close>

theorem input_signal_unchanged:
  assumes "sig < length (signals w)"
  shows "signals (snd (plot_span_map w sig nspans)) ! sig = signals w ! sig"
proof (cases "nspans \<le> 3 \<and> signal_dimension (signals w ! sig) = 1 \<and>
    navigation_dimension (signals w ! sig) = 2 \<and> spectral_axis (signals w ! sig) \<noteq> []")
  case True
  have lt: "sig < length (signals (navigator_world w sig))"
    using assms by simp
  show ?thesis
    using True assms by (simp add: plot_span_map_accepted final_signals(3) [OF lt])
next
  case False
  then have "snd (plot_span_map w sig nspans) = w"
    by (auto simp add: plot_span_map_def Let_def spectral_axis_def split: list.splits)
  then show ?thesis by simp
qed

theorem input_signal_unchanged_witness:
  "(0::nat) < length (signals ex_world) \<and>
   signals (snd (plot_span_map ex_world 0 2)) ! 0 = ex_sig \<and>
   signals (snd (plot_span_map ex_stack_world 0 2)) ! 0 = ex_stack"
  using input_signal_unchanged [of 0 ex_world 2] input_signal_unchanged [of 0 ex_stack_world 2]
  by (simp add: ex_world_def ex_stack_world_def)

section \<open>The initial ranges of the spans\<close>







section \<open>The navigator\<close>

lemma add_spectrum_nth:
  assumes "length xs = length acc"
  shows "add_spectrum acc xs = map (\<lambda>k. acc ! k + nan_to_zero (xs ! k)) [0..<length acc]"
  using assms by (intro nth_equalityI) (simp_all add: add_spectrum_def)

lemma foldl_add_spectrum:
  assumes "\<forall>xs\<in>set specs. length xs = length acc"
  shows "foldl add_spectrum acc specs =
         map (\<lambda>k. acc ! k + (\<Sum>xs\<leftarrow>specs. nan_to_zero (xs ! k))) [0..<length acc]"
  using assms
proof (induction specs arbitrary: acc)
  case Nil
  then show ?case by (simp add: map_nth)
next
  case (Cons xs specs)
  have len: "length (add_spectrum acc xs) = length acc"
    using Cons.prems by (simp add: add_spectrum_def)
  have "foldl add_spectrum (add_spectrum acc xs) specs =
        map (\<lambda>k. add_spectrum acc xs ! k + (\<Sum>ys\<leftarrow>specs. nan_to_zero (ys ! k))) [0..<length (add_spectrum acc xs)]"
    using Cons.prems by (intro Cons.IH) (simp add: len)
  also have "\<dots> = map (\<lambda>k. acc ! k + (\<Sum>ys\<leftarrow>xs # specs. nan_to_zero (ys ! k))) [0..<length acc]"
    using Cons.prems by (simp add: len add_spectrum_nth)
  finally show ?case by simp
qed

lemma sum_list_index: "(\<Sum>x\<leftarrow>xs. f x) = (\<Sum>i\<leftarrow>[0..<length xs]. f (xs ! i))"
proof -
  have "map f xs = map (\<lambda>i. f (xs ! i)) [0..<length xs]"
    by (intro nth_equalityI) simp_all
  then show ?thesis by simp
qed

lemma sum_list_concat_map:
  fixes f :: "'a \<Rightarrow> real"
  shows "(\<Sum>x\<leftarrow>concat xss. f x) = (\<Sum>xs\<leftarrow>xss. \<Sum>x\<leftarrow>xs. f x)"
  by (induction xss) simp_all

lemma nav_nansum_spec_concat:
  "nav_nansum_spec d k = (\<Sum>xs\<leftarrow>concat d. nan_to_zero (xs ! k))"
proof -
  have "(\<Sum>xs\<leftarrow>concat d. nan_to_zero (xs ! k)) = (\<Sum>row\<leftarrow>d. \<Sum>xs\<leftarrow>row. nan_to_zero (xs ! k))"
    by (rule sum_list_concat_map)
  also have "\<dots> = (\<Sum>row\<leftarrow>d. \<Sum>x\<leftarrow>[0..<length row]. nan_to_zero (row ! x ! k))"
    by (simp add: sum_list_index [where f = "\<lambda>xs. nan_to_zero (xs ! k)"])
  also have "\<dots> = (\<Sum>y\<leftarrow>[0..<length d]. \<Sum>x\<leftarrow>[0..<length (d ! y)]. nan_to_zero (d ! y ! x ! k))"
    by (rule sum_list_index)
  finally show ?thesis by (simp add: nav_nansum_spec_def)
qed

lemma nansum_spec:
  assumes "valid_signal s"
  shows "nansum s = \<lparr>sdata = map (\<lambda>k. Val (nav_nansum_spec (data s) k)) [0..<length (spectral_axis s)],
                     saxis = spectral_axis s\<rparr>"
proof -
  have ax: "(case signal_axes s of [] \<Rightarrow> [] | a # _ \<Rightarrow> axis a) = spectral_axis s"
    using valid_signal_axes(1) [OF assms] by (simp add: spectral_axis_def)
  have "foldl add_spectrum (replicate (length (spectral_axis s)) 0) (concat (data s)) =
        map (\<lambda>k. replicate (length (spectral_axis s)) 0 ! k + (\<Sum>xs\<leftarrow>concat (data s). nan_to_zero (xs ! k)))
          [0..<length (replicate (length (spectral_axis s)) (0::real))]"
    using valid_signal_spectra [OF assms] by (intro foldl_add_spectrum) simp
  also have "\<dots> = map (nav_nansum_spec (data s)) [0..<length (spectral_axis s)]"
    by (simp add: nav_nansum_spec_concat)
  finally show ?thesis
    by (simp add: nansum_def ax Let_def comp_def)
qed

text \<open>
  C6. For every validly shaped signal and every \<open>nspans \<le> 3\<close> the returned \<open>all_sum\<close> holds,
  at every spectral channel \<open>k\<close>, the sum over both navigation axes of the samples at
  \<open>k\<close>, a NaN sample counting as 0; it keeps the spectral axis of \<open>sig\<close>; and it is the same
  for every other span count \<open>nspans' \<le> 3\<close>.
\<close>

theorem navigator_is_nansum:
  assumes "valid_input w sig" "nspans \<le> 3" "nspans' \<le> 3"
  shows "\<exists>res w'. plot_span_map w sig nspans = (Inr res, w') \<and>
     spectra w' ! ret_all_sum res =
       \<lparr>sdata = map (\<lambda>k. Val (nav_nansum_spec (data (signals w ! sig)) k))
                  [0..<length (spectral_axis (signals w ! sig))],
        saxis = spectral_axis (signals w ! sig)\<rparr> \<and>
     (\<exists>res2 w2. plot_span_map w sig nspans' = (Inr res2, w2) \<and>
        spectra w2 ! ret_all_sum res2 = spectra w' ! ret_all_sum res)"
proof -
  have v: "valid_signal (signals w ! sig)"
    using assms(1) by (simp add: valid_input_def)
  show ?thesis
    by (simp add: plot_span_map_eq [OF assms(1,2)] plot_span_map_eq [OF assms(1,3)]
        loop_world_spectra nansum_spec [OF v])
qed

theorem navigator_is_nansum_witness:
  "valid_input ex_world 0 \<and> (1::int) \<le> 3 \<and> (3::int) \<le> 3 \<and>
   (\<exists>res w'. plot_span_map ex_world 0 1 = (Inr res, w') \<and>
      sdata (spectra w' ! ret_all_sum res) = [Val 11, Val 2, Val 30, Val 44] \<and>
      (\<exists>res2 w2. plot_span_map ex_world 0 3 = (Inr res2, w2) \<and>
         spectra w2 ! ret_all_sum res2 = spectra w' ! ret_all_sum res))"
proof -
  have "map (\<lambda>k. Val (nav_nansum_spec (data (signals ex_world ! 0)) k)) [0..<length (spectral_axis (signals ex_world ! 0))]
        = [Val 11, Val 2, Val 30, Val 44]"
    unfolding ex_axis
    by (simp add: nav_nansum_spec_def ex_world_def ex_sig_def nan_to_zero_def
        upt_conv_Cons del: upt_Suc)
  then show ?thesis
    using navigator_is_nansum [OF ex_valid_input, of 1 3] ex_valid_input
    by fastforce
qed

section \<open>Range changes\<close>

lemma roi_slice_fields:
  "data (roi_slice r s out) = data (roi_call r s)"
  "axes (roi_slice r s out) = axes (roi_call r s)"
  "any_axis_changed (roi_slice r s out) = any_axis_changed out"
  by (simp_all add: roi_slice_def roi_call_def Let_def)

lemma set_range_linked_eq:
  assumes "linked s0 sig nr ns ni n w" "j < n"
  shows "set_range w (nr + j) l r =
    w\<lparr>rois := (rois w)[nr + j := (rois w ! (nr + j))\<lparr>left := l, right := r\<rparr>],
      signals := (signals w)[ns + j :=
         roi_slice ((rois w ! (nr + j))\<lparr>left := l, right := r\<rparr>) s0 (signals w ! (ns + j))],
      images := (images w)[ni + j := (images w ! (ni + j))\<lparr>idata :=
         nansum_last (data (roi_call ((rois w ! (nr + j))\<lparr>left := l, right := r\<rparr>) s0))\<rparr>]\<rparr>"
proof -
  have f: "sig < ns" "length (rois w) = nr + n" "length (signals w) = ns + n"
    "length (images w) = ni + n" "signals w ! sig = s0"
    "changed (rois w ! (nr + j)) = [(sig, ns + j)]"
    "any_axis_changed (signals w ! (ns + j)) = [ni + j]"
    using assms by (simp_all add: linked_def)
  show ?thesis
    using f assms(2)
    by (intro world.equality)
      (simp_all add: set_range_def fire_changed_def recompute_slice_def fire_any_axis_changed_def
        recompute_sum_def Let_def roi_slice_fields)
qed

lemma set_range_linked:
  assumes "linked s0 sig nr ns ni n w" "j < n"
  shows "linked s0 sig nr ns ni n (set_range w (nr + j) l r)"
proof -
  have f: "sig < ns" "length (rois w) = nr + n" "length (signals w) = ns + n"
    "length (images w) = ni + n" "signals w ! sig = s0"
    using assms by (simp_all add: linked_def)
  have g: "changed (rois w ! (nr + i)) = [(sig, ns + i)]"
    "any_axis_changed (signals w ! (ns + i)) = [ni + i]"
    "data (signals w ! (ns + i)) = data (roi_call (rois w ! (nr + i)) s0)"
    "axes (signals w ! (ns + i)) = axes (roi_call (rois w ! (nr + i)) s0)"
    "idata (images w ! (ni + i)) = nansum_last (data (signals w ! (ns + i)))" if "i < n" for i
    using assms(1) that by (simp_all add: linked_def)
  show ?thesis
    unfolding set_range_linked_eq [OF assms] linked_def
    using f assms(2)
    by (auto simp add: nth_list_update g roi_slice_fields)
qed

lemma set_range_linked_range:
  assumes "linked s0 sig nr ns ni n w" "j < n"
  shows "left (rois (set_range w (nr + j) l r) ! (nr + j)) = l"
    "right (rois (set_range w (nr + j) l r) ! (nr + j)) = r"
    "length (images (set_range w (nr + j) l r)) = length (images w)"
    "i < n \<Longrightarrow> iaxes (images (set_range w (nr + j) l r) ! (ni + i)) = iaxes (images w ! (ni + i))"
  using assms
  unfolding set_range_linked_eq [OF assms]
  by (simp_all add: linked_def nth_list_update)

lemma plot_span_map_linked:
  assumes "sig < length (signals w)"
  shows "linked (signals w ! sig) sig (length (rois w)) (length (signals w)) (length (images w)) n
           (loop_world sig ax sw a [0..<n] (navigator_world w sig))"
  unfolding linked_def
  using assms final_world [OF assms, where n = n and ax = ax and sw = sw and a = a]
    final_signals(3) [where sig = sig and w = "navigator_world w sig" and k = sig and n = n
      and ax = ax and sw = sw and a = a]
  by (simp add: loop_world_lengths as_signal2D_def nansum_axis_def)

lemma set_ranges_linked:
  assumes "linked s0 sig nr ns ni n w" "\<forall>(i, l, r)\<in>set evs. i < n"
  shows "linked s0 sig nr ns ni n (set_ranges w [nr..<nr + n] evs)"
  using assms
proof (induction evs arbitrary: w)
  case Nil
  then show ?case by (simp add: set_ranges_def)
next
  case (Cons e evs)
  obtain i l r where e: "e = (i, l, r)" by (cases e) auto
  have i: "i < n" using Cons.prems(2) by (simp add: e)
  have "linked s0 sig nr ns ni n (set_range w (nr + i) l r)"
    using Cons.prems(1) i by (rule set_range_linked)
  then have "linked s0 sig nr ns ni n (set_ranges (set_range w (nr + i) l r) [nr..<nr + n] evs)"
    using Cons.prems(2) by (intro Cons.IH) simp_all
  then show ?case
    using i by (simp add: set_ranges_def e)
qed

lemma set_ranges_snoc:
  "set_ranges w spans (evs @ [(i, l, r)]) = set_range (set_ranges w spans evs) (spans ! i) l r"
  by (simp add: set_ranges_def)

lemma set_ranges_frame:
  assumes "linked s0 sig nr ns ni n w" "\<forall>(i, l, r)\<in>set evs. i < n"
  shows "length (images (set_ranges w [nr..<nr + n] evs)) = length (images w)"
    and "i < n \<Longrightarrow> iaxes (images (set_ranges w [nr..<nr + n] evs) ! (ni + i)) = iaxes (images w ! (ni + i))"
  using assms
proof (induction evs arbitrary: w)
  case Nil
  {
    case 1
    then show ?case by (simp add: set_ranges_def)
  next
    case 2
    then show ?case by (simp add: set_ranges_def)
  }
next
  case (Cons e evs)
  obtain j l r where e: "e = (j, l, r)" by (cases e) auto
  {
    case 1
    have j: "j < n" using 1(2) by (simp add: e)
    have step: "set_ranges w [nr..<nr + n] (e # evs) =
          set_ranges (set_range w (nr + j) l r) [nr..<nr + n] evs"
      using j by (simp add: set_ranges_def e)
    have "length (images (set_ranges (set_range w (nr + j) l r) [nr..<nr + n] evs)) =
          length (images (set_range w (nr + j) l r))"
      using 1 j by (intro Cons.IH(1) set_range_linked) simp_all
    then show ?case
      using set_range_linked_range(3) [OF 1(1) j] by (simp add: step)
  next
    case 2
    have j: "j < n" using 2(3) by (simp add: e)
    have step: "set_ranges w [nr..<nr + n] (e # evs) =
          set_ranges (set_range w (nr + j) l r) [nr..<nr + n] evs"
      using j by (simp add: set_ranges_def e)
    have "iaxes (images (set_ranges (set_range w (nr + j) l r) [nr..<nr + n] evs) ! (ni + i)) =
          iaxes (images (set_range w (nr + j) l r) ! (ni + i))"
      using 2 j by (intro Cons.IH(2) set_range_linked) simp_all
    then show ?case
      using set_range_linked_range(4) [OF 2(2) j 2(1)] by (simp add: step)
  }
qed

lemma foldl_plus_sum_list:
  fixes a :: real
  shows "foldl (\<lambda>acc v. acc + f v) a xs = a + (\<Sum>v\<leftarrow>xs. f v)"
  by (induction xs arbitrary: a) simp_all

lemma nansum1_sum_list: "nansum1 xs = Val (\<Sum>v\<leftarrow>xs. nan_to_zero v)"
  by (simp add: nansum1_def foldl_plus_sum_list)

lemma take_channels_in_range:
  assumes "\<forall>k\<in>set ks. k < length xs"
  shows "take_channels ks xs = map (\<lambda>k. xs ! k) ks"
  using assms by (simp add: take_channels_def)

lemma span_channels_in_range: "\<forall>k\<in>set (span_channels r ax). k < length ax"
  by (simp add: span_channels_def)

lemma nansum1_take_channels:
  assumes "length spec = length ax"
  shows "nansum1 (take_channels (span_channels r ax) spec) = Val (span_nansum_spec (span_channels r ax) spec)"
proof -
  have "take_channels (span_channels r ax) spec = map (\<lambda>k. spec ! k) (span_channels r ax)"
    using assms span_channels_in_range [of r ax] by (intro take_channels_in_range) simp
  then show ?thesis
    by (simp add: nansum1_sum_list span_nansum_spec_def comp_def)
qed

lemma roi_call_valid:
  fixes r s
  defines "ks \<equiv> span_channels r (spectral_axis s)"
  assumes "valid_signal s"
  shows "data (roi_call r s) = map (map (take_channels ks)) (data s)"
    and "axes x = axes (roi_call r s) \<Longrightarrow> spectral_axis x = take_channels ks (spectral_axis s)"
    and "nansum_last (data (roi_call r s)) = map (map (\<lambda>spec. Val (span_nansum_spec ks spec))) (data s)"
proof -
  have sa: "signal_axes s = [axes s ! 2]" and ax: "spectral_axis s = axis (axes s ! 2)"
    using valid_signal_axes [OF assms(2)] by simp_all
  show d: "data (roi_call r s) = map (map (take_channels ks)) (data s)"
    by (simp add: roi_call_def roi_slice_def sa ax ks_def Let_def)
  show "spectral_axis x = take_channels ks (spectral_axis s)" if "axes x = axes (roi_call r s)"
    using that assms(2)
    by (auto simp add: roi_call_def roi_slice_def sa ks_def spectral_axis_def signal_axes_def
        valid_signal_def Let_def split: list.splits)
  have "nansum1 (take_channels ks spec) = Val (span_nansum_spec ks spec)"
    if "row \<in> set (data s)" "spec \<in> set row" for row spec
    using valid_signal_spectra [OF assms(2)] that unfolding ks_def
    by (intro nansum1_take_channels) auto
  then show "nansum_last (data (roi_call r s)) = map (map (\<lambda>spec. Val (span_nansum_spec ks spec))) (data s)"
    by (simp add: d nansum_last_def)
qed

text \<open>
  C1. After the call and after any sequence of range changes of the returned spans, for
  every span index \<open>i\<close>: the slice \<open>span_sigs[i]\<close> is \<open>sig\<close> restricted to the channels of
  span \<open>i\<close>'s current range, and \<open>span_sums[i]\<close> holds, at every spatial position, the
  NaN-safe sum of \<open>sig\<close> over those channels, written as a sum over the channel indices.
  A range change takes effect on the span, creates no image, and leaves the axes of the
  sum image and the signal \<open>sig\<close> as they were: the sum is written into the existing image.
\<close>

theorem span_sums_follow_spans:
  assumes "valid_input w sig" "nspans \<le> 3" "\<forall>(i, l, r)\<in>set evs. i < nat nspans"
  shows "\<exists>res w'. plot_span_map w sig nspans = (Inr res, w') \<and>
     (let w'' = set_ranges w' (ret_spans res) evs; s = signals w ! sig
      in length (images w'') = length (images w') \<and>
         signals w'' ! sig = s \<and>
         (\<forall>i l r. evs \<noteq> [] \<and> last evs = (i, l, r) \<longrightarrow>
            left (rois w'' ! (ret_spans res ! i)) = l \<and> right (rois w'' ! (ret_spans res ! i)) = r) \<and>
         (\<forall>i<nat nspans.
            let ks = span_channels (rois w'' ! (ret_spans res ! i)) (spectral_axis s)
            in data (signals w'' ! (ret_span_sigs res ! i)) = map (map (take_channels ks)) (data s) \<and>
               spectral_axis (signals w'' ! (ret_span_sigs res ! i)) = take_channels ks (spectral_axis s) \<and>
               idata (images w'' ! (ret_span_sums res ! i)) =
                 map (map (\<lambda>spec. Val (span_nansum_spec ks spec))) (data s) \<and>
               iaxes (images w'' ! (ret_span_sums res ! i)) = iaxes (images w' ! (ret_span_sums res ! i))))"
proof -
  let ?s = "signals w ! sig"
  let ?n = "nat nspans"
  let ?nr = "length (rois w)" and ?ns = "length (signals w)" and ?ni = "length (images w)"
  let ?w' = "loop_world sig (spectral_axis ?s) (span_width_of ?s nspans) (length (spectra w))
               [0..<?n] (navigator_world w sig)"
  let ?res = "\<lparr>ret_all_sum = length (spectra w),
          ret_spans = [?nr..<?nr + ?n], ret_span_sigs = [?ns..<?ns + ?n],
          ret_span_sums = [?ni..<?ni + ?n]\<rparr>"
  let ?w'' = "set_ranges ?w' (ret_spans ?res) evs"
  have eq: "plot_span_map w sig nspans = (Inr ?res, ?w')"
    using assms(1,2) by (rule plot_span_map_eq)
  have lt: "sig < length (signals w)" and v: "valid_signal ?s"
    using assms(1) by (simp_all add: valid_input_def)
  have idx: "ret_spans ?res ! i = ?nr + i" "ret_span_sigs ?res ! i = ?ns + i"
    "ret_span_sums ?res ! i = ?ni + i" if "i < ?n" for i
    using that by simp_all
  have l0: "linked ?s sig ?nr ?ns ?ni ?n ?w'"
    using lt by (rule plot_span_map_linked)
  have w'': "?w'' = set_ranges ?w' [?nr..<?nr + ?n] evs"
    by simp
  have l1: "linked ?s sig ?nr ?ns ?ni ?n ?w''"
    unfolding w'' using l0 assms(3) by (rule set_ranges_linked)
  have a: "length (images ?w'') = length (images ?w')"
    unfolding w'' using l0 assms(3) by (rule set_ranges_frame(1))
  have b: "signals ?w'' ! sig = ?s"
    using l1 by (simp add: linked_def)
  have c: "left (rois ?w'' ! (ret_spans ?res ! i)) = l" "right (rois ?w'' ! (ret_spans ?res ! i)) = r"
    if "evs \<noteq> [] \<and> last evs = (i, l, r)" for i l r
  proof -
    define evs' where "evs' = butlast evs"
    have "evs \<noteq> []" and le: "last evs = (i, l, r)"
      using that by simp_all
    then have "butlast evs @ [last evs] = evs"
      by (intro append_butlast_last_id)
    then have evs: "evs = evs' @ [(i, l, r)]"
      by (simp only: le evs'_def)
    have i: "i < ?n" and evs': "\<forall>(i, l, r)\<in>set evs'. i < ?n"
      using assms(3) by (simp_all add: evs)
    have l2: "linked ?s sig ?nr ?ns ?ni ?n (set_ranges ?w' [?nr..<?nr + ?n] evs')"
      using l0 evs' by (rule set_ranges_linked)
    have w2: "?w'' = set_range (set_ranges ?w' [?nr..<?nr + ?n] evs') (?nr + i) l r"
      using i by (simp add: evs set_ranges_snoc)
    show "left (rois ?w'' ! (ret_spans ?res ! i)) = l" "right (rois ?w'' ! (ret_spans ?res ! i)) = r"
      unfolding idx(1) [OF i] w2 by (rule set_range_linked_range(1,2) [OF l2 i])+
  qed
  have d: "data (signals ?w'' ! (ret_span_sigs ?res ! i)) =
        map (map (take_channels (span_channels (rois ?w'' ! (ret_spans ?res ! i)) (spectral_axis ?s)))) (data ?s)"
    and e: "spectral_axis (signals ?w'' ! (ret_span_sigs ?res ! i)) =
        take_channels (span_channels (rois ?w'' ! (ret_spans ?res ! i)) (spectral_axis ?s)) (spectral_axis ?s)"
    and f: "idata (images ?w'' ! (ret_span_sums ?res ! i)) =
        map (map (\<lambda>spec. Val (span_nansum_spec
          (span_channels (rois ?w'' ! (ret_spans ?res ! i)) (spectral_axis ?s)) spec))) (data ?s)"
    and g: "iaxes (images ?w'' ! (ret_span_sums ?res ! i)) = iaxes (images ?w' ! (ret_span_sums ?res ! i))"
    if "i < ?n" for i
  proof -
    have h: "data (signals ?w'' ! (?ns + i)) = data (roi_call (rois ?w'' ! (?nr + i)) ?s)"
      "axes (signals ?w'' ! (?ns + i)) = axes (roi_call (rois ?w'' ! (?nr + i)) ?s)"
      "idata (images ?w'' ! (?ni + i)) = nansum_last (data (signals ?w'' ! (?ns + i)))"
      using l1 that by (simp_all add: linked_def)
    show "data (signals ?w'' ! (ret_span_sigs ?res ! i)) =
        map (map (take_channels (span_channels (rois ?w'' ! (ret_spans ?res ! i)) (spectral_axis ?s)))) (data ?s)"
      unfolding idx [OF that] h(1) by (rule roi_call_valid(1) [OF v])
    show "spectral_axis (signals ?w'' ! (ret_span_sigs ?res ! i)) =
        take_channels (span_channels (rois ?w'' ! (ret_spans ?res ! i)) (spectral_axis ?s)) (spectral_axis ?s)"
      unfolding idx [OF that] using h(2) by (rule roi_call_valid(2) [OF v])
    show "idata (images ?w'' ! (ret_span_sums ?res ! i)) =
        map (map (\<lambda>spec. Val (span_nansum_spec
          (span_channels (rois ?w'' ! (ret_spans ?res ! i)) (spectral_axis ?s)) spec))) (data ?s)"
      unfolding idx [OF that] h(3) h(1) by (rule roi_call_valid(3) [OF v])
    show "iaxes (images ?w'' ! (ret_span_sums ?res ! i)) = iaxes (images ?w' ! (ret_span_sums ?res ! i))"
      unfolding idx [OF that] w'' using l0 assms(3) that by (rule set_ranges_frame(2))
  qed
  show ?thesis
    unfolding Let_def
    by (intro exI [of _ ?res] exI [of _ ?w'] conjI allI impI) (rule eq a b c d e f g; assumption)+
qed

theorem span_sums_follow_spans_witness:
  "valid_input ex_world 0 \<and> (2::int) \<le> 3 \<and> (1::nat) < nat 2 \<and>
   (\<exists>res w'. plot_span_map ex_world 0 2 = (Inr res, w') \<and>
      (let w'' = set_ranges w' (ret_spans res) [(1, 2, 5)]
       in left (rois w'' ! (ret_spans res ! 1)) = 2 \<and> right (rois w'' ! (ret_spans res ! 1)) = 5 \<and>
          data (signals w'' ! (ret_span_sigs res ! 1)) = [[[Val 2, NaN], [NaN, Val 30]]] \<and>
          spectral_axis (signals w'' ! (ret_span_sigs res ! 1)) = [2, 3] \<and>
          idata (images w'' ! (ret_span_sums res ! 1)) = [[Val 2, Val 30]] \<and>
          length (images w'') = length (images w')))"
proof -
  have h: "\<forall>(i, l, r)\<in>set [(1::nat, 2::real, 5::real)]. i < nat 2"
    by simp
  have n: "(2::int) \<le> 3"
    by simp
  obtain res w' where eq: "plot_span_map ex_world 0 2 = (Inr res, w')"
    and len: "length (images (set_ranges w' (ret_spans res) [(1, 2, 5)])) = length (images w')"
    and rng: "\<forall>i l r. [(1::nat, 2::real, 5::real)] \<noteq> [] \<and> last [(1::nat, 2::real, 5::real)] = (i, l, r) \<longrightarrow>
        left (rois (set_ranges w' (ret_spans res) [(1, 2, 5)]) ! (ret_spans res ! i)) = l \<and>
        right (rois (set_ranges w' (ret_spans res) [(1, 2, 5)]) ! (ret_spans res ! i)) = r"
    and inv: "\<forall>i<nat 2.
        let ks = span_channels (rois (set_ranges w' (ret_spans res) [(1, 2, 5)]) ! (ret_spans res ! i))
                   (spectral_axis (signals ex_world ! 0))
        in data (signals (set_ranges w' (ret_spans res) [(1, 2, 5)]) ! (ret_span_sigs res ! i)) =
             map (map (take_channels ks)) (data (signals ex_world ! 0)) \<and>
           spectral_axis (signals (set_ranges w' (ret_spans res) [(1, 2, 5)]) ! (ret_span_sigs res ! i)) =
             take_channels ks (spectral_axis (signals ex_world ! 0)) \<and>
           idata (images (set_ranges w' (ret_spans res) [(1, 2, 5)]) ! (ret_span_sums res ! i)) =
             map (map (\<lambda>spec. Val (span_nansum_spec ks spec))) (data (signals ex_world ! 0)) \<and>
           iaxes (images (set_ranges w' (ret_spans res) [(1, 2, 5)]) ! (ret_span_sums res ! i)) =
             iaxes (images w' ! (ret_span_sums res ! i))"
    using span_sums_follow_spans [OF ex_valid_input n h] unfolding Let_def by blast
  let ?w'' = "set_ranges w' (ret_spans res) [(1, 2, 5)]"
  have lr: "left (rois ?w'' ! (ret_spans res ! 1)) = 2" "right (rois ?w'' ! (ret_spans res ! 1)) = 5"
    using rng by simp_all
  have "span_channels r [1, 2, 3, 5] = [1, 2]" if "left r = 2" "right r = 5" for r
    using that by (simp add: span_channels_def in_span_def upt_conv_Cons del: upt_Suc)
  then have ks: "span_channels (rois ?w'' ! (ret_spans res ! 1)) [1, 2, 3, 5] = [1, 2]"
    using lr by blast
  have one: "(1::nat) < nat 2"
    by simp
  have "data (signals ?w'' ! (ret_span_sigs res ! 1)) = [[[Val 2, NaN], [NaN, Val 30]]]"
    "spectral_axis (signals ?w'' ! (ret_span_sigs res ! 1)) = [2, 3]"
    "idata (images ?w'' ! (ret_span_sums res ! 1)) = [[Val 2, Val 30]]"
    using inv [rule_format, OF one] unfolding Let_def ex_axis ex_data ks
    by (simp_all add: take_channels_def span_nansum_spec_def nan_to_zero_def)
  then show ?thesis
    using ex_valid_input eq len lr by (simp add: Let_def)
qed

end
